theory Spec2Isabelle
  imports Main "HOL-Library.Char_ord" "HOL-Library.List_Lexorder"
begin

section \<open>Strings: the two library functions the router uses\<close>

text \<open>
  \<^verbatim>\<open>strings.Split(s, "/")\<close> with a one-character separator: the pieces of \<open>s\<close>
  between the separators, one more piece than there are separators, so that the empty
  string splits into one empty piece.
\<close>

fun Split :: "string \<Rightarrow> char \<Rightarrow> string list" where
  "Split [] sep = [[]]"
| "Split (c # cs) sep =
     (if c = sep then [] # Split cs sep
      else (case Split cs sep of [] \<Rightarrow> [[c]] | p # ps \<Rightarrow> (c # p) # ps))"

text \<open>\<^verbatim>\<open>strings.Join(elems, sep)\<close>.\<close>

fun Join :: "string list \<Rightarrow> string \<Rightarrow> string" where
  "Join [] sep = []"
| "Join [x] sep = x"
| "Join (x # y # ys) sep = x @ sep @ Join (y # ys) sep"

section \<open>The path matcher (router.go, match)\<close>

text \<open>
  A panic of the Go runtime or of a library is a value of the model: the functions that can
  panic return \<open>panic + 'a\<close>.
\<close>

datatype panic = IndexOutOfRange | HandleAlreadyRegistered

text \<open>
  \<^verbatim>\<open>regexp.MatchString(pattern, s)\<close> belongs to the Go library and is a parameter of the
  model: it returns the pair \<^verbatim>\<open>(matched, err)\<close>, with \<open>err\<close> the text of a compilation
  error or \<open>None\<close> for \<^verbatim>\<open>nil\<close>.
\<close>

type_synonym regexp_engine = "string \<Rightarrow> string \<Rightarrow> bool \<times> string option"

text \<open>The fields of \<^verbatim>\<open>*http.Request\<close> that the package reads.\<close>

record request =
  Method :: string
  URL_Path :: string
  RequestURI :: string
  RemoteAddr :: string

text \<open>
  The body of \<^verbatim>\<open>for i, m := range matcher\<close>, from index \<open>i\<close> on. The read
  \<^verbatim>\<open>routeParts[i+1]\<close> panics when \<open>i + 1\<close> is not an index of \<open>routeParts\<close>.
\<close>

fun match_loop :: "regexp_engine \<Rightarrow> string list \<Rightarrow> nat \<Rightarrow> string list \<Rightarrow> panic + bool" where
  "match_loop MatchString routeParts i [] = Inr True"
| "match_loop MatchString routeParts i (m # ms) =
     (if m \<noteq> '''' \<and> m \<noteq> ''.*'' then
        (if i + 1 < length routeParts then
           (case MatchString m (routeParts ! (i + 1)) of
              (matched, err) \<Rightarrow>
                if err \<noteq> None \<or> matched = False then Inr False
                else match_loop MatchString routeParts (i + 1) ms)
         else Inl IndexOutOfRange)
      else match_loop MatchString routeParts (i + 1) ms)"

definition match :: "regexp_engine \<Rightarrow> string \<Rightarrow> string list \<Rightarrow> request \<Rightarrow> panic + bool" where
  "match MatchString route matcher r =
     (if length matcher = 0 then Inr True
      else match_loop MatchString (Split (URL_Path r) CHR ''/'') 0 matcher)"

text \<open>
  A pattern that the loop does not hand to the regular-expression engine, and a pattern
  that the engine accepts on a segment.
\<close>

definition anything :: "string \<Rightarrow> bool" where
  "anything m = (m = '''' \<or> m = ''.*'')"

definition passes :: "regexp_engine \<Rightarrow> string \<Rightarrow> string \<Rightarrow> bool" where
  "passes MatchString m s = (case MatchString m s of (matched, err) \<Rightarrow> err = None \<and> matched)"

text \<open>
  An engine for the examples: it knows the pattern \<^verbatim>\<open>^[0-9]+$\<close> (one or more decimal
  digits) and the pattern \<^verbatim>\<open>(\<close>, which does not compile; it is not asked about others.
\<close>

definition sample_MatchString :: regexp_engine where
  "sample_MatchString pattern s =
     (if pattern = ''^[0-9]+$'' then (s \<noteq> [] \<and> list_all (\<lambda>c. c \<in> set ''0123456789'') s, None)
      else (False, Some ''error parsing regexp''))"

section \<open>The response sink (http.ResponseWriter)\<close>

text \<open>
  The sink the server hands to a handler, as a recorder of what the handler does to it.
  \<open>header\<close> is the map \<^verbatim>\<open>w.Header()\<close> (a key without values maps to the empty list);
  \<open>wrote\<close> is \<open>None\<close> until the status line is sent and then holds the status and the
  header map as they were sent: a later \<^verbatim>\<open>WriteHeader\<close> is ignored and later changes of the
  map no longer reach the client; \<open>body\<close> collects the bytes written. Header names are
  kept as the program spells them (every name is spelled one way throughout). A server's
  own checks of the status code and its guess of a missing Content-Type are outside
  the recorder.
\<close>

type_synonym http_Header = "string \<Rightarrow> string list"

record response =
  header :: http_Header
  wrote :: "(int \<times> http_Header) option"
  body :: string

definition new_response :: response where
  "new_response = \<lparr>header = (\<lambda>k. []), wrote = None, body = []\<rparr>"

definition Header_Set :: "response \<Rightarrow> string \<Rightarrow> string \<Rightarrow> response" where
  "Header_Set w key v = w\<lparr>header := (header w)(key := [v])\<rparr>"

definition Header_Add :: "response \<Rightarrow> string \<Rightarrow> string \<Rightarrow> response" where
  "Header_Add w key v = w\<lparr>header := (header w)(key := header w key @ [v])\<rparr>"

definition WriteHeader :: "response \<Rightarrow> int \<Rightarrow> response" where
  "WriteHeader w statusCode =
     (case wrote w of
        None \<Rightarrow> w\<lparr>wrote := Some (statusCode, header w)\<rparr>
      | Some sent \<Rightarrow> w)"

text \<open>A write sends the status line with 200 first when none was sent.\<close>

definition Write :: "response \<Rightarrow> string \<Rightarrow> (int \<times> string option) \<times> response" where
  "Write w p =
     (let w = WriteHeader w 200
      in ((int (length p), None), w\<lparr>body := body w @ p\<rparr>))"

text \<open>What the client receives: the status and the headers sent with it.\<close>

definition sent_status :: "response \<Rightarrow> int option" where
  "sent_status w = map_option fst (wrote w)"

definition sent_header :: "response \<Rightarrow> string \<Rightarrow> string list" where
  "sent_header w key = (case wrote w of None \<Rightarrow> [] | Some (code, h) \<Rightarrow> h key)"

section \<open>JSON encoding (json.NewEncoder(w).Encode)\<close>

text \<open>
  The encoder is the library's; the model has the JSON values it prints and its compact
  text: no spaces, object members in the given order, strings quoted with the escapes of
  the standard encoder (quote and backslash, \<^verbatim>\<open>\n\<close>, \<^verbatim>\<open>\r\<close>, \<^verbatim>\<open>\t\<close>, \<^verbatim>\<open>\u00XX\<close> for the other
  control characters and for \<^verbatim>\<open><\<close>, \<^verbatim>\<open>>\<close>, \<^verbatim>\<open>&\<close>); bytes from 0x80 on are copied.
\<close>

datatype json =
    JNull
  | JBool bool
  | JNumber int
  | JString string
  | JArray "json list"
  | JObject "(string \<times> json) list"

fun decimal :: "nat \<Rightarrow> string" where
  "decimal n =
     (if n < 10 then [''0123456789'' ! n]
      else decimal (n div 10) @ [''0123456789'' ! (n mod 10)])"

declare decimal.simps [simp del]

definition Itoa :: "int \<Rightarrow> string" where
  "Itoa i = (if i < 0 then CHR ''-'' # decimal (nat (- i)) else decimal (nat i))"

definition escape_char :: "char \<Rightarrow> string" where
  "escape_char c =
     (if c = CHR 0x22 then [CHR 0x5C, CHR 0x22]
      else if c = CHR 0x5C then [CHR 0x5C, CHR 0x5C]
      else if c = CHR 0x0A then [CHR 0x5C, CHR ''n'']
      else if c = CHR 0x0D then [CHR 0x5C, CHR ''r'']
      else if c = CHR 0x09 then [CHR 0x5C, CHR ''t'']
      else if (of_char c :: nat) < 0x20 \<or> c = CHR ''<'' \<or> c = CHR ''>'' \<or> c = CHR ''&''
      then [CHR 0x5C, CHR ''u'', CHR ''0'', CHR ''0'',
            ''0123456789abcdef'' ! ((of_char c :: nat) div 16),
            ''0123456789abcdef'' ! ((of_char c :: nat) mod 16)]
      else [c])"

definition quote :: "string \<Rightarrow> string" where
  "quote s = CHR 0x22 # concat (map escape_char s) @ [CHR 0x22]"

fun encode :: "json \<Rightarrow> string" where
  "encode JNull = ''null''"
| "encode (JBool b) = (if b then ''true'' else ''false'')"
| "encode (JNumber i) = Itoa i"
| "encode (JString s) = quote s"
| "encode (JArray vs) = ''['' @ Join (map encode vs) '','' @ '']''"
| "encode (JObject kvs) =
     ''{'' @ Join (map (\<lambda>kv. quote (fst kv) @ '':'' @ encode (snd kv)) kvs) '','' @ ''}''"

text \<open>
  \<^verbatim>\<open>json.NewEncoder(w).Encode(v)\<close>: one write of the text of \<open>v\<close> and a newline. The
  callers drop the error it returns.
\<close>

definition Encode :: "response \<Rightarrow> json \<Rightarrow> response" where
  "Encode w v = snd (Write w (encode v @ [CHR 0x0A]))"

section \<open>The error values and the error envelope\<close>

text \<open>
  The five package-level errors, compared by identity in the program, and any other error
  value with its text.
\<close>

datatype err =
    ErrBadRequest
  | ErrUnauthorized
  | ErrNotFound
  | ErrConflict
  | ErrUnprocessableEntity
  | OtherError string

fun Error :: "err \<Rightarrow> string" where
  "Error ErrBadRequest = ''400''"
| "Error ErrUnauthorized = ''401''"
| "Error ErrNotFound = ''404''"
| "Error ErrConflict = ''409''"
| "Error ErrUnprocessableEntity = ''422''"
| "Error (OtherError text) = text"

record HTTPErrorStatus =
  Code :: int
  Message :: string
  Reason :: string
  ValidationErrors :: "(string \<times> string) list"

text \<open>
  The struct tags: \<^verbatim>\<open>code\<close> and \<^verbatim>\<open>message\<close> always, \<^verbatim>\<open>reason,omitempty\<close> and
  \<^verbatim>\<open>validation_errors,omitempty\<close> only when not empty. The encoder prints a map with its
  keys sorted.
\<close>

definition marshal :: "HTTPErrorStatus \<Rightarrow> json" where
  "marshal e =
     JObject
       ([(''code'', JNumber (Code e)), (''message'', JString (Message e))] @
        (if Reason e \<noteq> '''' then [(''reason'', JString (Reason e))] else []) @
        (if ValidationErrors e \<noteq> []
         then [(''validation_errors'',
                JObject (map (\<lambda>kv. (fst kv, JString (snd kv)))
                  (sort_key fst (ValidationErrors e))))]
         else []))"

text \<open>The member names of a JSON object, in the order they are written.\<close>

definition object_keys :: "json \<Rightarrow> string list" where
  "object_keys v = (case v of JObject kvs \<Rightarrow> map fst kvs | _ \<Rightarrow> [])"

text \<open>\<^verbatim>\<open>http.StatusText\<close>: the table of net/http, the empty string for an unknown code.\<close>

definition StatusText :: "int \<Rightarrow> string" where
  "StatusText code =
     (if code = 100 then ''Continue''
      else if code = 101 then ''Switching Protocols''
      else if code = 102 then ''Processing''
      else if code = 103 then ''Early Hints''
      else if code = 200 then ''OK''
      else if code = 201 then ''Created''
      else if code = 202 then ''Accepted''
      else if code = 203 then ''Non-Authoritative Information''
      else if code = 204 then ''No Content''
      else if code = 205 then ''Reset Content''
      else if code = 206 then ''Partial Content''
      else if code = 207 then ''Multi-Status''
      else if code = 208 then ''Already Reported''
      else if code = 226 then ''IM Used''
      else if code = 300 then ''Multiple Choices''
      else if code = 301 then ''Moved Permanently''
      else if code = 302 then ''Found''
      else if code = 303 then ''See Other''
      else if code = 304 then ''Not Modified''
      else if code = 305 then ''Use Proxy''
      else if code = 307 then ''Temporary Redirect''
      else if code = 308 then ''Permanent Redirect''
      else if code = 400 then ''Bad Request''
      else if code = 401 then ''Unauthorized''
      else if code = 402 then ''Payment Required''
      else if code = 403 then ''Forbidden''
      else if code = 404 then ''Not Found''
      else if code = 405 then ''Method Not Allowed''
      else if code = 406 then ''Not Acceptable''
      else if code = 407 then ''Proxy Authentication Required''
      else if code = 408 then ''Request Timeout''
      else if code = 409 then ''Conflict''
      else if code = 410 then ''Gone''
      else if code = 411 then ''Length Required''
      else if code = 412 then ''Precondition Failed''
      else if code = 413 then ''Request Entity Too Large''
      else if code = 414 then ''Request URI Too Long''
      else if code = 415 then ''Unsupported Media Type''
      else if code = 416 then ''Requested Range Not Satisfiable''
      else if code = 417 then ''Expectation Failed''
      else if code = 418 then ''I'm a teapot''
      else if code = 421 then ''Misdirected Request''
      else if code = 422 then ''Unprocessable Entity''
      else if code = 423 then ''Locked''
      else if code = 424 then ''Failed Dependency''
      else if code = 425 then ''Too Early''
      else if code = 426 then ''Upgrade Required''
      else if code = 428 then ''Precondition Required''
      else if code = 429 then ''Too Many Requests''
      else if code = 431 then ''Request Header Fields Too Large''
      else if code = 451 then ''Unavailable For Legal Reasons''
      else if code = 500 then ''Internal Server Error''
      else if code = 501 then ''Not Implemented''
      else if code = 502 then ''Bad Gateway''
      else if code = 503 then ''Service Unavailable''
      else if code = 504 then ''Gateway Timeout''
      else if code = 505 then ''HTTP Version Not Supported''
      else if code = 506 then ''Variant Also Negotiates''
      else if code = 507 then ''Insufficient Storage''
      else if code = 508 then ''Loop Detected''
      else if code = 510 then ''Not Extended''
      else if code = 511 then ''Network Authentication Required''
      else '''')"

section \<open>The responders (response.go)\<close>

definition ErrorResponse :: "response \<Rightarrow> int \<Rightarrow> string \<Rightarrow> int \<times> response" where
  "ErrorResponse w status reason =
     (let w = WriteHeader w status;
          err = \<lparr>Code = 0, Message = '''', Reason = '''', ValidationErrors = []\<rparr>;
          err = err\<lparr>Code := status\<rparr>;
          err = err\<lparr>Message := StatusText status\<rparr>;
          err = (if reason \<noteq> '''' then err\<lparr>Reason := reason\<rparr> else err);
          w = Encode w (marshal err)
      in (status, w))"

text \<open>
  \<open>Response\<close> returns the status, the sink, and the errors it reported with
  \<^verbatim>\<open>fmt.Printf("Unknown err: ...")\<close> on standard output. The payload is the JSON value the
  encoder prints for it, \<open>None\<close> for \<^verbatim>\<open>nil\<close>. The cases of the \<^verbatim>\<open>switch\<close> are in the order of
  the source.
\<close>

definition Response ::
  "response \<Rightarrow> json option \<Rightarrow> err option \<Rightarrow> int \<Rightarrow> string \<Rightarrow> int \<times> response \<times> err list" where
  "Response w response err desiredStatus location =
     (let w = Header_Set w ''Content-Type'' ''application/json; charset=utf-8'';
          w = Header_Set w ''Accept'' ''application/json''
      in case err of
           None \<Rightarrow>
             (let w = (if location \<noteq> '''' then Header_Set w ''Location'' location else w);
                  w = WriteHeader w desiredStatus;
                  w = (case response of Some v \<Rightarrow> Encode w v | None \<Rightarrow> w)
              in (desiredStatus, w, []))
         | Some e \<Rightarrow>
             if e = ErrConflict then
               (case ErrorResponse w 409 '''' of (status, w) \<Rightarrow> (status, w, []))
             else if e = ErrBadRequest then
               (case ErrorResponse w 400 '''' of (status, w) \<Rightarrow> (status, w, []))
             else if e = ErrUnauthorized then
               (case ErrorResponse w 401 '''' of (status, w) \<Rightarrow> (status, w, []))
             else
               (case ErrorResponse w 500 (Error e) of (status, w) \<Rightarrow> (status, w, [e])))"

definition ResponseErr :: "response \<Rightarrow> err option \<Rightarrow> int \<times> response \<times> err list" where
  "ResponseErr w err = Response w None err 200 ''''"

definition NotFound :: "response \<Rightarrow> request \<Rightarrow> response" where
  "NotFound w r = snd (ErrorResponse w 404 '''')"

definition NotAllowed :: "response \<Rightarrow> request \<Rightarrow> response" where
  "NotAllowed w r = snd (ErrorResponse w 405 '''')"

definition BadRequest :: "response \<Rightarrow> request \<Rightarrow> string \<Rightarrow> response" where
  "BadRequest w r reason = snd (ErrorResponse w 400 reason)"

definition BadRequestValidation ::
  "response \<Rightarrow> request \<Rightarrow> string \<Rightarrow> (string \<times> string) list \<Rightarrow> response" where
  "BadRequestValidation w r reason validationErrors =
     (let status = 400;
          w = WriteHeader w status;
          errResponse = \<lparr>Code = 0, Message = '''', Reason = '''', ValidationErrors = []\<rparr>;
          errResponse = errResponse\<lparr>Code := status\<rparr>;
          errResponse = errResponse\<lparr>Message := StatusText status\<rparr>;
          errResponse = (if reason \<noteq> '''' then errResponse\<lparr>Reason := reason\<rparr> else errResponse);
          errResponse = (if length validationErrors > 0
                         then errResponse\<lparr>ValidationErrors := validationErrors\<rparr>
                         else errResponse)
      in Encode w (marshal errResponse))"

definition Forbidden :: "response \<Rightarrow> request \<Rightarrow> string \<Rightarrow> response" where
  "Forbidden w r reason = snd (ErrorResponse w 403 reason)"

definition Unauthorized :: "response \<Rightarrow> request \<Rightarrow> response" where
  "Unauthorized w r = snd (ErrorResponse w 401 '''')"

section \<open>The instrumented response writer (LogResponseWriter)\<close>

text \<open>
  Go's \<^verbatim>\<open>int\<close> on a 64-bit target: an addition wraps around in two's complement.
\<close>

definition wrap_int :: "int \<Rightarrow> int" where
  "wrap_int x = (x + 2 ^ 63) mod 2 ^ 64 - 2 ^ 63"

text \<open>
  The struct embeds the wrapped \<^verbatim>\<open>http.ResponseWriter\<close>, here of any type \<open>'s\<close>; the two
  methods it overrides take the wrapped sink's own method as a parameter.
\<close>

record 's LogResponseWriter =
  ResponseWriter :: 's
  status :: int
  size_w :: int

definition NewLogResponseWriter :: "'s \<Rightarrow> 's LogResponseWriter" where
  "NewLogResponseWriter w = \<lparr>ResponseWriter = w, status = 0, size_w = 0\<rparr>"

definition Status :: "'s LogResponseWriter \<Rightarrow> int" where
  "Status w = status w"

definition Size :: "'s LogResponseWriter \<Rightarrow> int" where
  "Size w = size_w w"

definition LogResponseWriter_Write ::
  "('s \<Rightarrow> string \<Rightarrow> (int \<times> string option) \<times> 's) \<Rightarrow>
   's LogResponseWriter \<Rightarrow> string \<Rightarrow> (int \<times> string option) \<times> 's LogResponseWriter" where
  "LogResponseWriter_Write sink_Write w p =
     (case sink_Write (ResponseWriter w) p of
        ((written, err), sink) \<Rightarrow>
          ((written, err),
           w\<lparr>ResponseWriter := sink, size_w := wrap_int (size_w w + written)\<rparr>))"

definition LogResponseWriter_WriteHeader ::
  "('s \<Rightarrow> int \<Rightarrow> 's) \<Rightarrow> 's LogResponseWriter \<Rightarrow> int \<Rightarrow> 's LogResponseWriter" where
  "LogResponseWriter_WriteHeader sink_WriteHeader w statusCode =
     (let w = w\<lparr>status := statusCode\<rparr>
      in w\<lparr>ResponseWriter := sink_WriteHeader (ResponseWriter w) statusCode\<rparr>)"

text \<open>
  A sequence of calls on a writer, with what each call returns: \<open>Some\<close> of the pair
  \<^verbatim>\<open>(n, err)\<close> for a \<^verbatim>\<open>Write\<close>, \<open>None\<close> for a \<^verbatim>\<open>WriteHeader\<close>. \<open>run_wrapped\<close> makes the calls
  on a \<open>LogResponseWriter\<close>, \<open>run_sink\<close> makes the same calls on the sink itself.
\<close>

datatype call = CallWrite string | CallWriteHeader int

fun run_wrapped ::
  "('s \<Rightarrow> string \<Rightarrow> (int \<times> string option) \<times> 's) \<Rightarrow> ('s \<Rightarrow> int \<Rightarrow> 's) \<Rightarrow>
   's LogResponseWriter \<Rightarrow> call list \<Rightarrow> (int \<times> string option) option list \<times> 's LogResponseWriter" where
  "run_wrapped sink_Write sink_WriteHeader w [] = ([], w)"
| "run_wrapped sink_Write sink_WriteHeader w (CallWrite p # calls) =
     (case LogResponseWriter_Write sink_Write w p of
        (ret, w) \<Rightarrow>
          (case run_wrapped sink_Write sink_WriteHeader w calls of
             (rets, w) \<Rightarrow> (Some ret # rets, w)))"
| "run_wrapped sink_Write sink_WriteHeader w (CallWriteHeader statusCode # calls) =
     (case run_wrapped sink_Write sink_WriteHeader
             (LogResponseWriter_WriteHeader sink_WriteHeader w statusCode) calls of
        (rets, w) \<Rightarrow> (None # rets, w))"

fun run_sink ::
  "('s \<Rightarrow> string \<Rightarrow> (int \<times> string option) \<times> 's) \<Rightarrow> ('s \<Rightarrow> int \<Rightarrow> 's) \<Rightarrow>
   's \<Rightarrow> call list \<Rightarrow> (int \<times> string option) option list \<times> 's" where
  "run_sink sink_Write sink_WriteHeader s [] = ([], s)"
| "run_sink sink_Write sink_WriteHeader s (CallWrite p # calls) =
     (case sink_Write s p of
        (ret, s) \<Rightarrow>
          (case run_sink sink_Write sink_WriteHeader s calls of
             (rets, s) \<Rightarrow> (Some ret # rets, s)))"
| "run_sink sink_Write sink_WriteHeader s (CallWriteHeader statusCode # calls) =
     (case run_sink sink_Write sink_WriteHeader (sink_WriteHeader s statusCode) calls of
        (rets, s) \<Rightarrow> (None # rets, s))"

text \<open>
  The argument of the last \<^verbatim>\<open>WriteHeader\<close> of a sequence (\<open>d\<close> when there is none), and the
  byte counts the writes returned.
\<close>

fun last_WriteHeader :: "int \<Rightarrow> call list \<Rightarrow> int" where
  "last_WriteHeader d [] = d"
| "last_WriteHeader d (CallWrite p # calls) = last_WriteHeader d calls"
| "last_WriteHeader d (CallWriteHeader statusCode # calls) = last_WriteHeader statusCode calls"

fun written_counts :: "(int \<times> string option) option list \<Rightarrow> int list" where
  "written_counts [] = []"
| "written_counts (None # rets) = written_counts rets"
| "written_counts (Some (n, err) # rets) = n # written_counts rets"

text \<open>A sink for the examples: it takes at most four bytes of a write and reports the rest as an error.\<close>

definition short_Write :: "string \<Rightarrow> string \<Rightarrow> (int \<times> string option) \<times> string" where
  "short_Write s p =
     (if length p \<le> 4 then ((int (length p), None), s @ p)
      else ((4, Some ''short write''), s @ take 4 p))"

definition short_WriteHeader :: "string \<Rightarrow> int \<Rightarrow> string" where
  "short_WriteHeader s statusCode = s"

section \<open>The access log (rest.go, logging.go)\<close>

text \<open>
  The logging backend is a collaborator: a \<open>Logging\<close> is the list of the records it was
  given, each with its level, message and fields.
\<close>

datatype level = DebugLevel | InfoLevel | ErrorLevel

datatype field = zap_String string | zap_Int int | zap_Duration int

record entry =
  entry_level :: level
  entry_msg :: string
  entry_fields :: "(string \<times> field) list"

type_synonym Logging = "entry list"

definition Logging_Error :: "Logging \<Rightarrow> string \<Rightarrow> string \<Rightarrow> (string \<times> field) list \<Rightarrow> Logging" where
  "Logging_Error l source msg fs =
     (let fs = fs @ [(''source'', zap_String source)]
      in l @ [\<lparr>entry_level = ErrorLevel, entry_msg = msg, entry_fields = fs\<rparr>])"

definition Logging_Info :: "Logging \<Rightarrow> string \<Rightarrow> string \<Rightarrow> (string \<times> field) list \<Rightarrow> Logging" where
  "Logging_Info l source msg fs =
     (let fs = fs @ [(''source'', zap_String source)]
      in l @ [\<lparr>entry_level = InfoLevel, entry_msg = msg, entry_fields = fs\<rparr>])"

definition Logging_Debug :: "Logging \<Rightarrow> string \<Rightarrow> string \<Rightarrow> (string \<times> field) list \<Rightarrow> Logging" where
  "Logging_Debug l source msg fs =
     (let fs = fs @ [(''source'', zap_String source)]
      in l @ [\<lparr>entry_level = DebugLevel, entry_msg = msg, entry_fields = fs\<rparr>])"

section \<open>The route registry and the dispatch wrappers (router.go)\<close>

type_synonym Params = "(string \<times> string) list"

text \<open>
  A handler works on the instrumented writer it is given. It is the caller's code, and any
  function of this type is allowed.
\<close>

type_synonym APIHandler =
  "response LogResponseWriter \<Rightarrow> request \<Rightarrow> Params \<Rightarrow> response LogResponseWriter"

record APIEndpoint =
  Handler :: APIHandler
  Matcher :: "string list"

text \<open>
  The closures \<open>SetupRouter\<close> installs, with the variables each one captures: the wrapper
  of a registered route, the wrapper of a synthesized OPTIONS route, and the two handlers
  for requests that reach no route.
\<close>

datatype Handle =
    RouteHandle string string APIEndpoint
  | OptionsHandle string

datatype http_Handler = NotFoundLogged | MethodNotAllowedLogged

text \<open>
  The router of the httprouter library, as the table of its handles by method and path.
  Of its behaviour the model keeps that \<^verbatim>\<open>Handle\<close> panics when the method and path already
  have a handle. The library refuses more registrations than that (paths it cannot parse,
  conflicting wildcards); these only take runs of \<open>SetupRouter\<close> away.
\<close>

record Router =
  handles :: "((string \<times> string) \<times> Handle) list"
  router_NotFound :: "http_Handler option"
  router_MethodNotAllowed :: "http_Handler option"

definition httprouter_New :: Router where
  "httprouter_New = \<lparr>handles = [], router_NotFound = None, router_MethodNotAllowed = None\<rparr>"

definition router_Handle :: "Router \<Rightarrow> string \<Rightarrow> string \<Rightarrow> Handle \<Rightarrow> panic + Router" where
  "router_Handle rt method path handle =
     (if (method, path) \<in> set (map fst (handles rt)) then Inl HandleAlreadyRegistered
      else Inr (rt\<lparr>handles := handles rt @ [((method, path), handle)]\<rparr>))"

text \<open>
  The fields of \<open>REST\<close> that the router reads and writes. \<open>optionsMappings\<close> is a Go map,
  kept as an association list; \<open>tls\<close> is set by \<open>Start\<close>.
\<close>

record REST =
  router :: Router
  optionsMappings :: "(string \<times> string list) list"
  logger :: Logging
  tls :: bool

text \<open>\<^verbatim>\<open>rr.optionsMappings[route]\<close>: the empty slice for a route that is not a key.\<close>

definition optionsMappings_at :: "(string \<times> string list) list \<Rightarrow> string \<Rightarrow> string list" where
  "optionsMappings_at om route = (case map_of om route of None \<Rightarrow> [] | Some methods \<Rightarrow> methods)"

fun update_at :: "(string \<times> string list) list \<Rightarrow> string \<Rightarrow> string list \<Rightarrow> (string \<times> string list) list" where
  "update_at [] route methods = [(route, methods)]"
| "update_at ((k, v) # om) route methods =
     (if k = route then (route, methods) # om else (k, v) # update_at om route methods)"

definition REST_log ::
  "REST \<Rightarrow> bool \<Rightarrow> string \<Rightarrow> string \<Rightarrow> string \<Rightarrow> string \<Rightarrow> string \<Rightarrow> int \<Rightarrow> int \<Rightarrow> int \<Rightarrow> REST" where
  "REST_log rr isErr msg method route uri remote httpErrorCode size' duration =
     (if isErr then
        rr\<lparr>logger := Logging_Error (logger rr) ''rest'' msg
          [(''method'', zap_String method),
           (''uri'', zap_String uri),
           (''remote'', zap_String remote),
           (''code'', zap_Int httpErrorCode),
           (''size'', zap_Int size'),
           (''duration'', zap_Duration duration)]\<rparr>
      else
        rr\<lparr>logger := Logging_Info (logger rr) ''rest'' msg
          [(''method'', zap_String method),
           (''uri'', zap_String uri),
           (''remote'', zap_String remote),
           (''code'', zap_Int httpErrorCode),
           (''size'', zap_Int size'),
           (''duration'', zap_Duration duration)]\<rparr>)"

definition writeHeaders :: "REST \<Rightarrow> response \<Rightarrow> request \<Rightarrow> string \<Rightarrow> response" where
  "writeHeaders rr w r route =
     (let w = Header_Add w ''Access-Control-Allow-Origin'' ''*'';
          w = Header_Add w ''Access-Control-Allow-Headers''
                ''Origin, X-Requested-With, Content-Type, Accept, X-Session-Token'';
          w = Header_Add w ''Access-Control-Allow-Methods''
                (''OPTIONS, '' @ Join (optionsMappings_at (optionsMappings rr) route) '', '');
          w = Header_Add w ''X-Content-Type-Options'' ''nosniff'';
          w = Header_Add w ''X-Frame-Options'' ''DENY'';
          w = Header_Add w ''X-XSS-Protection'' ''1; mode=block''
      in w)"

text \<open>
  The wrapper of a registered route. \<open>elapsed\<close> is what \<^verbatim>\<open>time.Since(now)\<close> returns at the
  log call. \<open>ww\<close> embeds \<open>w\<close>, so the headers written to \<open>w\<close> after the wrapping are those of
  the sink inside \<open>ww\<close>. A panic of \<open>match\<close> leaves the wrapper before anything is written.
\<close>

definition wrapper ::
  "regexp_engine \<Rightarrow> REST \<Rightarrow> string \<Rightarrow> string \<Rightarrow> APIHandler \<Rightarrow> string list \<Rightarrow> int \<Rightarrow>
   response \<Rightarrow> request \<Rightarrow> Params \<Rightarrow> panic + (response \<times> REST)" where
  "wrapper MatchString rr localMethod localRoute localFunction localMatcher elapsed w r ps =
     (let w = (if tls rr
               then Header_Add w ''Strict-Transport-Security'' ''max-age=31536000; includeSubDomains''
               else w)
      in case match MatchString localRoute localMatcher r of
           Inl p \<Rightarrow> Inl p
         | Inr True \<Rightarrow>
             (let ww = NewLogResponseWriter w;
                  ww = ww\<lparr>ResponseWriter := writeHeaders rr (ResponseWriter ww) r localRoute\<rparr>;
                  ww = localFunction ww r ps;
                  rr = REST_log rr False ''hit'' localMethod localRoute (RequestURI r)
                         (RemoteAddr r) (Status ww) (Size ww) elapsed
              in Inr (ResponseWriter ww, rr))
         | Inr False \<Rightarrow>
             (let w = BadRequest w r ''route does not match'';
                  rr = REST_log rr True ''hit'' localMethod localRoute (RequestURI r)
                         (RemoteAddr r) 400 0 elapsed
              in Inr (w, rr)))"

definition options_wrapper ::
  "REST \<Rightarrow> string \<Rightarrow> int \<Rightarrow> response \<Rightarrow> request \<Rightarrow> Params \<Rightarrow> response \<times> REST" where
  "options_wrapper rr localRoute elapsed w r ps =
     (let localMethod = ''OPTIONS'';
          w = (if tls rr
               then Header_Add w ''Strict-Transport-Security'' ''max-age=31536000; includeSubDomains''
               else w);
          ww = NewLogResponseWriter w;
          ww = ww\<lparr>ResponseWriter := writeHeaders rr (ResponseWriter ww) r localRoute\<rparr>;
          ww = LogResponseWriter_WriteHeader WriteHeader ww 200;
          rr = REST_log rr False ''hit'' localMethod localRoute (RequestURI r)
                 (RemoteAddr r) (Status ww) (Size ww) elapsed
      in (ResponseWriter ww, rr))"

text \<open>What a handle of the table does when the router calls it.\<close>

fun serve ::
  "regexp_engine \<Rightarrow> REST \<Rightarrow> Handle \<Rightarrow> int \<Rightarrow> response \<Rightarrow> request \<Rightarrow> Params \<Rightarrow>
   panic + (response \<times> REST)" where
  "serve MatchString rr (RouteHandle method route endpoint) elapsed w r ps =
     wrapper MatchString rr method route (Handler endpoint) (Matcher endpoint) elapsed w r ps"
| "serve MatchString rr (OptionsHandle route) elapsed w r ps =
     Inr (options_wrapper rr route elapsed w r ps)"

fun serve_unrouted :: "REST \<Rightarrow> http_Handler \<Rightarrow> int \<Rightarrow> response \<Rightarrow> request \<Rightarrow> response \<times> REST" where
  "serve_unrouted rr NotFoundLogged elapsed w r =
     (let w = snd (ErrorResponse w 404 '''');
          rr = REST_log rr False ''hit'' (Method r) (RequestURI r) (RequestURI r)
                 (RemoteAddr r) 404 0 elapsed
      in (w, rr))"
| "serve_unrouted rr MethodNotAllowedLogged elapsed w r =
     (let w = snd (ErrorResponse w 405 '''');
          rr = REST_log rr False ''hit'' (Method r) (RequestURI r) (RequestURI r)
                 (RemoteAddr r) 405 0 elapsed
      in (w, rr))"

text \<open>
  \<open>SetupRouter\<close>. The route map is a Go map of Go maps; the model takes it as an
  association list of association lists and every \<^verbatim>\<open>range\<close> loop visits its list in order,
  so that the order of the lists stands for the order of iteration, which Go leaves open.
  The first loop builds \<open>optionsMappings\<close>.
\<close>

fun options_of_mappings ::
  "(string \<times> string list) list \<Rightarrow> string \<Rightarrow> (string \<times> APIEndpoint) list \<Rightarrow> (string \<times> string list) list" where
  "options_of_mappings om method [] = om"
| "options_of_mappings om method ((route, endpoint) # mappings) =
     options_of_mappings
       (case map_of om route of
          Some methods \<Rightarrow> update_at om route (optionsMappings_at om route @ [method])
        | None \<Rightarrow> update_at om route [method])
       method mappings"

fun options_of_routes ::
  "(string \<times> string list) list \<Rightarrow> (string \<times> (string \<times> APIEndpoint) list) list \<Rightarrow> (string \<times> string list) list" where
  "options_of_routes om [] = om"
| "options_of_routes om ((method, mappings) # routes) =
     options_of_routes (options_of_mappings om method mappings) routes"

text \<open>The second loop registers the wrapper of every route and logs the registration.\<close>

fun handle_mappings ::
  "Router \<times> Logging \<Rightarrow> string \<Rightarrow> (string \<times> APIEndpoint) list \<Rightarrow> panic + (Router \<times> Logging)" where
  "handle_mappings (rt, l) method [] = Inr (rt, l)"
| "handle_mappings (rt, l) method ((route, endpoint) # mappings) =
     (case router_Handle rt method route (RouteHandle method route endpoint) of
        Inl p \<Rightarrow> Inl p
      | Inr rt \<Rightarrow>
          handle_mappings
            (rt,
             Logging_Info l ''rest'' ''HTTP route added''
               [(''method'', zap_String method),
                (''route'', zap_String route),
                (''matchers'', zap_String (Join (Matcher endpoint) '',''))])
            method mappings)"

fun handle_routes ::
  "Router \<times> Logging \<Rightarrow> (string \<times> (string \<times> APIEndpoint) list) list \<Rightarrow> panic + (Router \<times> Logging)" where
  "handle_routes (rt, l) [] = Inr (rt, l)"
| "handle_routes (rt, l) ((method, mappings) # routes) =
     (case handle_mappings (rt, l) method mappings of
        Inl p \<Rightarrow> Inl p
      | Inr (rt, l) \<Rightarrow> handle_routes (rt, l) routes)"

text \<open>The third loop registers an OPTIONS wrapper for every key of \<open>optionsMappings\<close>.\<close>

fun handle_options :: "Router \<times> Logging \<Rightarrow> string list \<Rightarrow> panic + (Router \<times> Logging)" where
  "handle_options (rt, l) [] = Inr (rt, l)"
| "handle_options (rt, l) (route # routes) =
     (case router_Handle rt ''OPTIONS'' route (OptionsHandle route) of
        Inl p \<Rightarrow> Inl p
      | Inr rt \<Rightarrow>
          handle_options
            (rt,
             Logging_Info l ''rest'' ''HTTP route added''
               [(''method'', zap_String ''OPTIONS''),
                (''route'', zap_String route)])
            routes)"

definition SetupRouter ::
  "REST \<Rightarrow> (string \<times> (string \<times> APIEndpoint) list) list \<Rightarrow> panic + REST" where
  "SetupRouter rr routes =
     (let rr = rr\<lparr>optionsMappings := []\<rparr>;
          rr = rr\<lparr>optionsMappings := options_of_routes (optionsMappings rr) routes\<rparr>;
          router = httprouter_New
      in case handle_routes (router, logger rr) routes of
           Inl p \<Rightarrow> Inl p
         | Inr (router, l) \<Rightarrow>
             (case handle_options (router, l) (map fst (optionsMappings rr)) of
                Inl p \<Rightarrow> Inl p
              | Inr (router, l) \<Rightarrow>
                  (let router = router\<lparr>router_NotFound := Some NotFoundLogged\<rparr>;
                       router = router\<lparr>router_MethodNotAllowed := Some MethodNotAllowedLogged\<rparr>
                   in Inr (rr\<lparr>router := router, logger := l\<rparr>))))"

text \<open>The methods registered for a route, and examples to run.\<close>

definition registered_methods ::
  "(string \<times> (string \<times> APIEndpoint) list) list \<Rightarrow> string \<Rightarrow> string list" where
  "registered_methods routes route =
     map fst (filter (\<lambda>entry. route \<in> set (map fst (snd entry))) routes)"

definition sample_endpoint :: "string list \<Rightarrow> APIEndpoint" where
  "sample_endpoint matcher = \<lparr>Handler = (\<lambda>ww r ps. ww), Matcher = matcher\<rparr>"

definition sample_routes :: "(string \<times> (string \<times> APIEndpoint) list) list" where
  "sample_routes =
     [(''GET'', [(''/items/:id'', sample_endpoint ['''', ''^[0-9]+$'']), (''/items'', sample_endpoint [])]),
      (''PUT'', [(''/items/:id'', sample_endpoint ['''', ''^[0-9]+$''])])]"

definition sample_REST :: REST where
  "sample_REST = \<lparr>router = httprouter_New, optionsMappings = [], logger = [], tls = False\<rparr>"

definition sample_request :: "string \<Rightarrow> string \<Rightarrow> request" where
  "sample_request method path =
     \<lparr>Method = method, URL_Path = path, RequestURI = path, RemoteAddr = ''10.0.0.1:4000''\<rparr>"

text \<open>
  The table entries the second and the third loop of \<open>SetupRouter\<close> add, in order.
\<close>

definition route_handles ::
  "(string \<times> (string \<times> APIEndpoint) list) list \<Rightarrow> ((string \<times> string) \<times> Handle) list" where
  "route_handles routes =
     concat (map (\<lambda>entry. map (\<lambda>m. ((fst entry, fst m), RouteHandle (fst entry) (fst m) (snd m)))
       (snd entry)) routes)"

definition option_handles :: "string list \<Rightarrow> ((string \<times> string) \<times> Handle) list" where
  "option_handles rs = map (\<lambda>route. ((''OPTIONS'', route), OptionsHandle route)) rs"

section \<open>Properties of the path matcher\<close>

lemma match_loop_anything:
  "list_all anything ms \<Longrightarrow> match_loop M ps i ms = Inr True"
  by (induction ms arbitrary: i) (auto simp: anything_def)

lemma match_loop_all:
  "length ms + i < length ps \<Longrightarrow>
   match_loop M ps i ms =
     Inr (\<forall>j<length ms. anything (ms ! j) \<or> passes M (ms ! j) (ps ! (i + j + 1)))"
proof (induction ms arbitrary: i)
  case Nil
  then show ?case by simp
next
  case (Cons m ms)
  have rest: "match_loop M ps (i + 1) ms =
      Inr (\<forall>j<length ms. anything (ms ! j) \<or> passes M (ms ! j) (ps ! (i + 1 + j + 1)))"
    using Cons.prems by (intro Cons.IH) simp
  have unroll: "(\<forall>j<length (m # ms). anything ((m # ms) ! j) \<or>
        passes M ((m # ms) ! j) (ps ! (i + j + 1))) =
     ((anything m \<or> passes M m (ps ! (i + 1))) \<and>
      (\<forall>j<length ms. anything (ms ! j) \<or> passes M (ms ! j) (ps ! (i + 1 + j + 1))))"
    by (simp add: All_less_Suc2)
  show ?case
    unfolding unroll using Cons.prems rest
    by (auto simp: anything_def passes_def split: prod.splits)
qed

lemma match_loop_panics:
  "k < length ms \<Longrightarrow> \<not> anything (ms ! k) \<Longrightarrow> length ps \<le> i + k + 1 \<Longrightarrow>
   \<forall>j<k. \<not> anything (ms ! j) \<and> i + j + 1 < length ps \<longrightarrow>
      passes M (ms ! j) (ps ! (i + j + 1)) \<Longrightarrow>
   match_loop M ps i ms = Inl IndexOutOfRange"
proof (induction ms arbitrary: i k)
  case Nil
  then show ?case by simp
next
  case (Cons m ms)
  show ?case
  proof (cases k)
    case 0
    with Cons.prems show ?thesis by (auto simp: anything_def)
  next
    case (Suc k')
    have "match_loop M ps (i + 1) ms = Inl IndexOutOfRange"
    proof (rule Cons.IH[of k'])
      show "k' < length ms" using Cons.prems Suc by simp
      show "\<not> anything (ms ! k')" using Cons.prems Suc by simp
      show "length ps \<le> i + 1 + k' + 1" using Cons.prems Suc by simp
      show "\<forall>j<k'. \<not> anything (ms ! j) \<and> i + 1 + j + 1 < length ps \<longrightarrow>
          passes M (ms ! j) (ps ! (i + 1 + j + 1))"
      proof (intro allI impI)
        fix j assume "j < k'" and a: "\<not> anything (ms ! j) \<and> i + 1 + j + 1 < length ps"
        then have "Suc j < k" using Suc by simp
        with Cons.prems(4) a have "passes M ((m # ms) ! Suc j) (ps ! (i + Suc j + 1))"
          by auto
        then show "passes M (ms ! j) (ps ! (i + 1 + j + 1))" by simp
      qed
    qed
    moreover have "\<not> anything m \<and> i + 1 < length ps \<longrightarrow> passes M m (ps ! (i + 1))"
      using Cons.prems(4) Suc by (auto dest: spec[of _ 0])
    ultimately show ?thesis
      by (auto simp: anything_def passes_def split: prod.splits)
  qed
qed

lemma match_loop_stops:
  "\<forall>j<length pre. anything (pre ! j) \<or> passes M (pre ! j) (ps ! (i + j + 1)) \<Longrightarrow>
   \<not> anything m \<Longrightarrow> i + length pre + 1 < length ps \<Longrightarrow>
   \<not> passes M m (ps ! (i + length pre + 1)) \<Longrightarrow>
   match_loop M ps i (pre @ m # rest) = Inr False"
proof (induction pre arbitrary: i)
  case Nil
  then show ?case by (auto simp: anything_def passes_def split: prod.splits)
next
  case (Cons p pre)
  have "match_loop M ps (i + 1) (pre @ m # rest) = Inr False"
  proof (rule Cons.IH)
    show "\<forall>j<length pre. anything (pre ! j) \<or> passes M (pre ! j) (ps ! (i + 1 + j + 1))"
    proof (intro allI impI)
      fix j assume "j < length pre"
      then have "Suc j < length (p # pre)" by simp
      with Cons.prems(1) have "anything ((p # pre) ! Suc j) \<or>
          passes M ((p # pre) ! Suc j) (ps ! (i + Suc j + 1))" by blast
      then show "anything (pre ! j) \<or> passes M (pre ! j) (ps ! (i + 1 + j + 1))" by simp
    qed
    show "\<not> anything m" by (rule Cons.prems)
    show "i + 1 + length pre + 1 < length ps" using Cons.prems by simp
    show "\<not> passes M m (ps ! (i + 1 + length pre + 1))" using Cons.prems by simp
  qed
  moreover have "anything p \<or> passes M p (ps ! (i + 1))"
    using Cons.prems(1) by (auto dest: spec[of _ 0])
  moreover have "i + 1 < length ps" using Cons.prems by simp
  ultimately show ?case
    by (auto simp: anything_def passes_def split: prod.splits)
qed

text \<open>
  Claim C9. When every pattern of the matcher list is \<^verbatim>\<open>""\<close> or \<^verbatim>\<open>.*\<close>, \<open>match\<close> returns
  true. No segment of the path is read for such a pattern, so this holds for every request
  path, and in particular for those with at least as many segments as patterns.
\<close>

theorem match_accepts_unconstrained:
  assumes "\<forall>m\<in>set matcher. m = '''' \<or> m = ''.*''"
  shows "match M route matcher r = Inr True"
proof -
  from assms have "list_all anything matcher"
    by (simp add: list_all_iff anything_def)
  then show ?thesis
    by (simp add: match_def match_loop_anything)
qed

theorem match_accepts_unconstrained_witness:
  "list_all anything ['''', ''.*''] \<and>
   match sample_MatchString ''/items/:id/:part'' ['''', ''.*'']
     \<lparr>Method = ''GET'', URL_Path = ''/items/42'', RequestURI = ''/items/42'',
      RemoteAddr = ''10.0.0.1:4000''\<rparr> = Inr True"
proof -
  have h: "\<forall>m\<in>set ['''', ''.*'']. m = '''' \<or> m = ''.*''" by simp
  show ?thesis using match_accepts_unconstrained [OF h] by (simp add: anything_def)
qed

text \<open>
  Claim C3. There are matcher lists and requests on which \<open>match\<close> reads past the end of
  the split path, which is a panic of the Go runtime and not the answer false. It happens
  whenever the loop reaches a pattern other than \<^verbatim>\<open>""\<close> and \<^verbatim>\<open>.*\<close> at an index \<open>i\<close> while
  the path splits into at most \<open>i + 1\<close> parts, that is, when no earlier pattern checked
  against an existing part has rejected it. The witness is the matcher
  \<^verbatim>\<open>["", "^[0-9]+$"]\<close> on the path \<^verbatim>\<open>/items\<close>.
\<close>

theorem match_reads_past_segments:
  assumes "i < length matcher"
    and "matcher ! i \<noteq> ''''" and "matcher ! i \<noteq> ''.*''"
    and "length (Split (URL_Path r) CHR ''/'') \<le> i + 1"
    and "\<forall>j<i. \<not> anything (matcher ! j) \<and> j + 1 < length (Split (URL_Path r) CHR ''/'') \<longrightarrow>
           passes M (matcher ! j) (Split (URL_Path r) CHR ''/'' ! (j + 1))"
  shows "match M route matcher r = Inl IndexOutOfRange"
proof -
  have "\<not> anything (matcher ! i)"
    using assms(2,3) by (simp add: anything_def)
  then have "match_loop M (Split (URL_Path r) CHR ''/'') 0 matcher = Inl IndexOutOfRange"
    using assms(1,4,5) by (intro match_loop_panics[of i]) simp_all
  moreover have "length matcher \<noteq> 0" using assms(1) by auto
  ultimately show ?thesis by (simp add: match_def)
qed

theorem match_reads_past_segments_witness:
  "match sample_MatchString ''/items/:id'' ['''', ''^[0-9]+$'']
     \<lparr>Method = ''GET'', URL_Path = ''/items'', RequestURI = ''/items'',
      RemoteAddr = ''10.0.0.1:4000''\<rparr> = Inl IndexOutOfRange
   \<and> length (Split ''/items'' CHR ''/'') = 2"
proof -
  let ?r = "\<lparr>Method = ''GET'', URL_Path = ''/items'', RequestURI = ''/items'',
      RemoteAddr = ''10.0.0.1:4000''\<rparr>"
  let ?ms = "['''', ''^[0-9]+$'']"
  have a: "(1::nat) < length ?ms" by simp
  have b: "?ms ! 1 \<noteq> ''''" and c: "?ms ! 1 \<noteq> ''.*''" by simp_all
  have d: "length (Split (URL_Path ?r) CHR ''/'') \<le> 1 + 1" by simp
  have e: "\<forall>j<1::nat. \<not> anything (?ms ! j) \<and> j + 1 < length (Split (URL_Path ?r) CHR ''/'') \<longrightarrow>
           passes sample_MatchString (?ms ! j) (Split (URL_Path ?r) CHR ''/'' ! (j + 1))"
    by (simp add: anything_def)
  show ?thesis
    using match_reads_past_segments [OF a b c d e, of "''/items/:id''"] by simp
qed

text \<open>
  Claim C4. On a request whose path splits into more parts than there are patterns (every
  \<^verbatim>\<open>routeParts[i+1]\<close> exists), \<open>match\<close> returns true if and only if every pattern other than
  \<^verbatim>\<open>""\<close> and \<^verbatim>\<open>.*\<close> is accepted by the engine on part \<open>i + 1\<close> of the path, where accepted means
  no error and a match: an error or a non-match at any index makes the result false. The
  loop stops at the first pattern that fails: whatever follows it in the list, even more
  patterns than the path has parts, the result is false.
\<close>

theorem match_iff_every_pattern_passes:
  assumes "length matcher < length (Split (URL_Path r) CHR ''/'')"
  shows "match M route matcher r =
           Inr (\<forall>i<length matcher. anything (matcher ! i) \<or>
                  passes M (matcher ! i) (Split (URL_Path r) CHR ''/'' ! (i + 1)))
       \<and> (\<forall>k<length matcher.
            \<not> anything (matcher ! k) \<and>
            \<not> passes M (matcher ! k) (Split (URL_Path r) CHR ''/'' ! (k + 1)) \<and>
            (\<forall>j<k. anything (matcher ! j) \<or>
                  passes M (matcher ! j) (Split (URL_Path r) CHR ''/'' ! (j + 1)))
            \<longrightarrow> (\<forall>rest. match M route (take k matcher @ matcher ! k # rest) r = Inr False))"
proof (intro conjI allI impI)
  let ?ps = "Split (URL_Path r) CHR ''/''"
  have "match_loop M ?ps 0 matcher =
      Inr (\<forall>j<length matcher. anything (matcher ! j) \<or> passes M (matcher ! j) (?ps ! (0 + j + 1)))"
    using assms by (intro match_loop_all) simp
  then show "match M route matcher r =
      Inr (\<forall>i<length matcher. anything (matcher ! i) \<or> passes M (matcher ! i) (?ps ! (i + 1)))"
    by (cases matcher) (simp_all add: match_def)
next
  fix k rest
  let ?ps = "Split (URL_Path r) CHR ''/''"
  assume k: "k < length matcher"
    and fails: "\<not> anything (matcher ! k) \<and> \<not> passes M (matcher ! k) (?ps ! (k + 1)) \<and>
      (\<forall>j<k. anything (matcher ! j) \<or> passes M (matcher ! j) (?ps ! (j + 1)))"
  have len: "length (take k matcher) = k" using k by simp
  have "match_loop M ?ps 0 (take k matcher @ matcher ! k # rest) = Inr False"
  proof (rule match_loop_stops)
    show "\<forall>j<length (take k matcher). anything (take k matcher ! j) \<or>
        passes M (take k matcher ! j) (?ps ! (0 + j + 1))"
      using fails k by simp
    show "\<not> anything (matcher ! k)" using fails by simp
    show "0 + length (take k matcher) + 1 < length ?ps" using assms k by simp
    show "\<not> passes M (matcher ! k) (?ps ! (0 + length (take k matcher) + 1))"
      using fails len by simp
  qed
  then show "match M route (take k matcher @ matcher ! k # rest) r = Inr False"
    by (simp add: match_def)
qed

theorem match_iff_every_pattern_passes_witness:
  "length ['''', ''^[0-9]+$''] < length (Split ''/items/42'' CHR ''/'') \<and>
   match sample_MatchString ''/items/:id'' ['''', ''^[0-9]+$'']
     \<lparr>Method = ''GET'', URL_Path = ''/items/42'', RequestURI = ''/items/42'',
      RemoteAddr = ''10.0.0.1:4000''\<rparr> = Inr True \<and>
   length [''^[0-9]+$'', ''.*''] < length (Split ''/items/42'' CHR ''/'') \<and>
   match sample_MatchString ''/items/:id'' [''^[0-9]+$'', ''('', ''('', ''('']
     \<lparr>Method = ''GET'', URL_Path = ''/items/42'', RequestURI = ''/items/42'',
      RemoteAddr = ''10.0.0.1:4000''\<rparr> = Inr False \<and>
   sample_MatchString ''('' ''42'' = (False, Some ''error parsing regexp'') \<and>
   match sample_MatchString ''/items/:id'' ['''', ''('']
     \<lparr>Method = ''GET'', URL_Path = ''/items/42'', RequestURI = ''/items/42'',
      RemoteAddr = ''10.0.0.1:4000''\<rparr> = Inr False"
proof -
  let ?r = "\<lparr>Method = ''GET'', URL_Path = ''/items/42'', RequestURI = ''/items/42'',
      RemoteAddr = ''10.0.0.1:4000''\<rparr>"
  have h1: "length ['''', ''^[0-9]+$''] < length (Split (URL_Path ?r) CHR ''/'')" by simp
  have h2: "length [''^[0-9]+$'', ''.*''] < length (Split (URL_Path ?r) CHR ''/'')" by simp
  have t1: "match sample_MatchString ''/items/:id'' ['''', ''^[0-9]+$''] ?r = Inr True"
    using match_iff_every_pattern_passes [OF h1, of sample_MatchString "''/items/:id''"]
    by (simp add: anything_def passes_def sample_MatchString_def All_less_Suc)
  have "\<forall>rest. match sample_MatchString ''/items/:id''
      (take 0 [''^[0-9]+$'', ''.*''] @ [''^[0-9]+$'', ''.*''] ! 0 # rest) ?r = Inr False"
    using match_iff_every_pattern_passes [OF h2, of sample_MatchString "''/items/:id''",
      THEN conjunct2, rule_format, of 0]
    by (simp add: anything_def passes_def sample_MatchString_def)
  then have t2: "match sample_MatchString ''/items/:id'' [''^[0-9]+$'', ''('', ''('', ''(''] ?r = Inr False"
    by simp
  have h3: "length ['''', ''(''] < length (Split (URL_Path ?r) CHR ''/'')" by simp
  have t3: "match sample_MatchString ''/items/:id'' ['''', ''(''] ?r = Inr False"
    using match_iff_every_pattern_passes [OF h3, of sample_MatchString "''/items/:id''"]
    by (simp add: anything_def passes_def sample_MatchString_def All_less_Suc)
  show ?thesis using h1 h2 t1 t2 t3 by (simp add: sample_MatchString_def)
qed

section \<open>Properties of the responders\<close>

lemma body_Encode: "body (Encode w v) = body w @ encode v @ [CHR 0x0A]"
  by (simp add: Encode_def Write_def WriteHeader_def Let_def split: option.splits)

lemma header_Encode: "header (Encode w v) = header w"
  by (simp add: Encode_def Write_def WriteHeader_def Let_def split: option.splits)

lemma wrote_Encode:
  "wrote (Encode w v) = (case wrote w of None \<Rightarrow> Some (200, header w) | Some sent \<Rightarrow> Some sent)"
  by (simp add: Encode_def Write_def WriteHeader_def Let_def split: option.splits)

lemma body_WriteHeader: "body (WriteHeader w code) = body w"
  by (simp add: WriteHeader_def split: option.splits)

lemma header_WriteHeader: "header (WriteHeader w code) = header w"
  by (simp add: WriteHeader_def split: option.splits)

lemma wrote_WriteHeader:
  "wrote (WriteHeader w code) =
     (case wrote w of None \<Rightarrow> Some (code, header w) | Some sent \<Rightarrow> Some sent)"
  by (simp add: WriteHeader_def split: option.splits)

lemma fst_ErrorResponse: "fst (ErrorResponse w code reason) = code"
  by (simp add: ErrorResponse_def Let_def)

lemma body_ErrorResponse:
  "body (snd (ErrorResponse w code reason)) =
     body w @
     encode (marshal \<lparr>Code = code, Message = StatusText code, Reason = reason,
               ValidationErrors = []\<rparr>) @ [CHR 0x0A]"
  by (simp add: ErrorResponse_def Let_def body_Encode body_WriteHeader)

lemma header_ErrorResponse: "header (snd (ErrorResponse w code reason)) = header w"
  by (simp add: ErrorResponse_def Let_def header_Encode header_WriteHeader)

lemma wrote_ErrorResponse:
  "wrote (snd (ErrorResponse w code reason)) =
     (case wrote w of None \<Rightarrow> Some (code, header w) | Some sent \<Rightarrow> Some sent)"
  by (simp add: ErrorResponse_def Let_def wrote_Encode wrote_WriteHeader header_WriteHeader
      split: option.splits)

lemma body_BadRequestValidation:
  "body (BadRequestValidation w r reason validationErrors) =
     body w @
     encode (marshal \<lparr>Code = 400, Message = ''Bad Request'', Reason = reason,
               ValidationErrors = validationErrors\<rparr>) @ [CHR 0x0A]"
  by (simp add: BadRequestValidation_def Let_def body_Encode body_WriteHeader StatusText_def)

lemma header_BadRequestValidation:
  "header (BadRequestValidation w r reason validationErrors) = header w"
  by (simp add: BadRequestValidation_def Let_def header_Encode header_WriteHeader)

lemma wrote_BadRequestValidation:
  "wrote (BadRequestValidation w r reason validationErrors) =
     (case wrote w of None \<Rightarrow> Some (400, header w) | Some sent \<Rightarrow> Some sent)"
  by (simp add: BadRequestValidation_def Let_def wrote_Encode wrote_WriteHeader header_WriteHeader
      split: option.splits)

text \<open>
  Claim C1 fails on the code for two of the five sentinels. The \<^verbatim>\<open>switch\<close> of \<open>Response\<close> has
  cases for \<open>ErrConflict\<close>, \<open>ErrBadRequest\<close> and \<open>ErrUnauthorized\<close> only: \<open>ErrNotFound\<close> and
  \<open>ErrUnprocessableEntity\<close> fall through to the code for unknown errors, which reports
  them on standard output and answers 500 with the texts \<^verbatim>\<open>404\<close> and \<^verbatim>\<open>422\<close> as the reason,
  whatever the payload, the desired status and the location.
\<close>

theorem Response_answers_500_for_ErrNotFound:
  \<open>Response new_response response (Some ErrNotFound) desiredStatus location =
     (500,
      \<lparr>header = (\<lambda>k. [])(''Content-Type'' := [''application/json; charset=utf-8''],
                           ''Accept'' := [''application/json'']),
       wrote = Some (500, (\<lambda>k. [])(''Content-Type'' := [''application/json; charset=utf-8''],
                           ''Accept'' := [''application/json''])),
       body = ''{"code":500,"message":"Internal Server Error","reason":"404"}'' @ [CHR 0x0A]\<rparr>,
      [ErrNotFound])
   \<and> fst (Response new_response response (Some ErrUnprocessableEntity) desiredStatus location) = 500
   \<and> body (fst (snd (Response new_response response (Some ErrUnprocessableEntity) desiredStatus location))) =
       ''{"code":500,"message":"Internal Server Error","reason":"422"}'' @ [CHR 0x0A]
   \<and> snd (snd (Response new_response response (Some ErrUnprocessableEntity) desiredStatus location)) =
       [ErrUnprocessableEntity]\<close>
  by (simp add: Response_def ErrorResponse_def new_response_def Header_Set_def WriteHeader_def
      Encode_def Write_def marshal_def StatusText_def quote_def escape_char_def Itoa_def
      decimal.simps Let_def)

text \<open>
  Claim C2 fails on the code for the convenience responders. \<open>Response\<close> sets the
  Content-Type header before it writes the envelope, but \<open>ErrorResponse\<close> and
  \<open>BadRequestValidation\<close> set no header at all, so the responders built on them send the
  JSON envelope without one: on a fresh sink the header is absent from what is sent, while
  the same envelope sent through \<open>Response\<close> carries it.
\<close>

theorem responders_send_no_Content_Type:
  "sent_header (snd (ErrorResponse new_response code reason)) ''Content-Type'' = []
   \<and> sent_header (BadRequest new_response r reason) ''Content-Type'' = []
   \<and> sent_header (BadRequestValidation new_response r reason validationErrors) ''Content-Type'' = []
   \<and> sent_header (NotFound new_response r) ''Content-Type'' = []
   \<and> sent_header (NotAllowed new_response r) ''Content-Type'' = []
   \<and> sent_header (Unauthorized new_response r) ''Content-Type'' = []
   \<and> sent_header (Forbidden new_response r reason) ''Content-Type'' = []
   \<and> sent_header (fst (snd (Response new_response response (Some ErrConflict) desiredStatus location)))
        ''Content-Type'' = [''application/json; charset=utf-8'']"
  by (simp add: sent_header_def wrote_ErrorResponse wrote_BadRequestValidation BadRequest_def
      NotFound_def NotAllowed_def Unauthorized_def Forbidden_def Response_def Let_def
      split_beta Header_Set_def new_response_def)

text \<open>
  Claim C8. The envelope \<open>BadRequestValidation\<close> builds for reason \<^verbatim>\<open>X\<close> and validation errors
  \<^verbatim>\<open>{"field":"msg"}\<close> is written as the JSON object with code 400, message
  \<^verbatim>\<open>Bad Request\<close>, the reason and the validation errors. For every envelope, the object has
  the member \<^verbatim>\<open>reason\<close> exactly when the reason is not empty and the member
  \<^verbatim>\<open>validation_errors\<close> exactly when there is a validation error; with both empty, only
  code and message are written.
\<close>

theorem envelope_serialization:
  \<open>body (BadRequestValidation new_response r ''X'' [(''field'', ''msg'')]) =
     ''{"code":400,"message":"Bad Request","reason":"X","validation_errors":{"field":"msg"}}'' @ [CHR 0x0A]
   \<and> body (BadRequestValidation new_response r '''' [(''field'', ''msg'')]) =
     ''{"code":400,"message":"Bad Request","validation_errors":{"field":"msg"}}'' @ [CHR 0x0A]
   \<and> body (BadRequestValidation new_response r ''X'' []) =
     ''{"code":400,"message":"Bad Request","reason":"X"}'' @ [CHR 0x0A]
   \<and> body (BadRequestValidation new_response r '''' []) =
     ''{"code":400,"message":"Bad Request"}'' @ [CHR 0x0A]
   \<and> marshal e =
       JObject ([(''code'', JNumber (Code e)), (''message'', JString (Message e))] @
         (if Reason e = '''' then [] else [(''reason'', JString (Reason e))]) @
         (if ValidationErrors e = [] then []
          else [(''validation_errors'',
                 JObject (map (\<lambda>kv. (fst kv, JString (snd kv)))
                   (sort_key fst (ValidationErrors e))))]))
   \<and> object_keys (marshal e) =
       [''code'', ''message''] @
       (if Reason e = '''' then [] else [''reason'']) @
       (if ValidationErrors e = [] then [] else [''validation_errors''])\<close>
  by (simp add: body_BadRequestValidation new_response_def marshal_def quote_def escape_char_def
      Itoa_def decimal.simps object_keys_def)

text \<open>
  For every non-nil error, the result of \<open>Response\<close> does not depend on the payload, the
  desired status or the location: it is the result of \<open>ResponseErr\<close>, which passes none of
  them, and the Location header is left as it was.
\<close>

lemma Response_error_independent:
  "Response w response (Some e) desiredStatus location = ResponseErr w (Some e)
   \<and> header (fst (snd (Response w response (Some e) desiredStatus location))) ''Location'' =
        header w ''Location''
   \<and> sent_header (fst (snd (Response w response (Some e) desiredStatus location))) ''Location'' =
        (case wrote w of None \<Rightarrow> header w ''Location'' | Some (code, h) \<Rightarrow> h ''Location'')"
  by (auto simp: Response_def ResponseErr_def Let_def split_beta header_ErrorResponse
      wrote_ErrorResponse Header_Set_def sent_header_def split: option.splits)

text \<open>
  Claim C10 fails on the code for two of the five sentinels, by the defect of claim C1. The
  frame holds: with \<open>ErrNotFound\<close> or \<open>ErrUnprocessableEntity\<close> the result is that of
  \<open>ResponseErr\<close>, whatever the payload, the desired status and the location, no Location
  header is set and the payload is not written. But the envelope written is not the one of
  the sentinel's fixed status: the \<^verbatim>\<open>switch\<close> of \<open>Response\<close> has no case for these two errors,
  so status 500 is returned and sent, with the texts \<^verbatim>\<open>404\<close> and \<^verbatim>\<open>422\<close> as the reason.
\<close>

theorem Response_frame_writes_500_envelope:
  \<open>Response new_response response (Some ErrNotFound) desiredStatus location =
     ResponseErr new_response (Some ErrNotFound)
   \<and> header (fst (snd (Response new_response response (Some ErrNotFound) desiredStatus location)))
        ''Location'' = []
   \<and> sent_header (fst (snd (Response new_response response (Some ErrNotFound) desiredStatus location)))
        ''Location'' = []
   \<and> fst (Response new_response response (Some ErrNotFound) desiredStatus location) = 500
   \<and> sent_status (fst (snd (Response new_response response (Some ErrNotFound) desiredStatus location))) =
        Some 500
   \<and> body (fst (snd (Response new_response response (Some ErrNotFound) desiredStatus location))) =
        ''{"code":500,"message":"Internal Server Error","reason":"404"}'' @ [CHR 0x0A]
   \<and> Response new_response response (Some ErrUnprocessableEntity) desiredStatus location =
        ResponseErr new_response (Some ErrUnprocessableEntity)
   \<and> header (fst (snd (Response new_response response (Some ErrUnprocessableEntity) desiredStatus
        location))) ''Location'' = []
   \<and> sent_header (fst (snd (Response new_response response (Some ErrUnprocessableEntity) desiredStatus
        location))) ''Location'' = []
   \<and> fst (Response new_response response (Some ErrUnprocessableEntity) desiredStatus location) = 500
   \<and> sent_status (fst (snd (Response new_response response (Some ErrUnprocessableEntity) desiredStatus
        location))) = Some 500
   \<and> body (fst (snd (Response new_response response (Some ErrUnprocessableEntity) desiredStatus
        location))) =
        ''{"code":500,"message":"Internal Server Error","reason":"422"}'' @ [CHR 0x0A]\<close>
  by (simp add: Response_def ResponseErr_def ErrorResponse_def new_response_def Header_Set_def
      WriteHeader_def Encode_def Write_def marshal_def StatusText_def quote_def escape_char_def
      Itoa_def decimal.simps Let_def sent_status_def sent_header_def)

section \<open>Properties of the instrumented response writer\<close>

lemma wrap_int_add: "wrap_int (wrap_int a + b) = wrap_int (a + b)"
proof -
  have "wrap_int a + b + 2 ^ 63 = (a + 2 ^ 63) mod 2 ^ 64 + b"
    by (simp add: wrap_int_def)
  then have "(wrap_int a + b + 2 ^ 63) mod 2 ^ 64 = ((a + 2 ^ 63) mod 2 ^ 64 + b) mod 2 ^ 64"
    by (rule arg_cong)
  also have "\<dots> = (a + 2 ^ 63 + b) mod 2 ^ 64"
    by (rule mod_add_left_eq)
  also have "a + 2 ^ 63 + b = a + b + 2 ^ 63"
    by simp
  finally have "(wrap_int a + b + 2 ^ 63) mod 2 ^ 64 - 2 ^ 63 = (a + b + 2 ^ 63) mod 2 ^ 64 - 2 ^ 63"
    by (rule arg_cong)
  then show ?thesis
    unfolding wrap_int_def [of "wrap_int a + b"] wrap_int_def [of "a + b"] .
qed

lemma written_counts_Some: "written_counts (Some ret # rets) = fst ret # written_counts rets"
  by (cases ret) simp

lemma wrap_int_in_range: "- (2 ^ 63) \<le> x \<Longrightarrow> x < 2 ^ 63 \<Longrightarrow> wrap_int x = x"
  by (simp add: wrap_int_def)

lemma run_wrapped_returns:
  "fst (run_wrapped W WH ww calls) = fst (run_sink W WH (ResponseWriter ww) calls)
   \<and> ResponseWriter (snd (run_wrapped W WH ww calls)) = snd (run_sink W WH (ResponseWriter ww) calls)"
proof (induction calls arbitrary: ww)
  case Nil
  show ?case by simp
next
  case (Cons c calls)
  show ?case
  proof (cases c)
    case (CallWrite p)
    then show ?thesis
      using Cons.IH [of "snd (LogResponseWriter_Write W ww p)"]
      by (simp add: LogResponseWriter_Write_def split_beta)
  next
    case (CallWriteHeader code)
    then show ?thesis
      using Cons.IH [of "LogResponseWriter_WriteHeader WH ww code"]
      by (simp add: LogResponseWriter_WriteHeader_def split_beta Let_def)
  qed
qed

lemma run_wrapped_status:
  "status (snd (run_wrapped W WH ww calls)) = last_WriteHeader (status ww) calls"
proof (induction calls arbitrary: ww)
  case Nil
  show ?case by simp
next
  case (Cons c calls)
  show ?case
  proof (cases c)
    case (CallWrite p)
    then show ?thesis
      using Cons.IH [of "snd (LogResponseWriter_Write W ww p)"]
      by (simp add: LogResponseWriter_Write_def split_beta)
  next
    case (CallWriteHeader code)
    then show ?thesis
      using Cons.IH [of "LogResponseWriter_WriteHeader WH ww code"]
      by (simp add: LogResponseWriter_WriteHeader_def split_beta Let_def)
  qed
qed

lemma run_wrapped_size:
  "wrap_int (size_w ww) = size_w ww \<Longrightarrow>
   size_w (snd (run_wrapped W WH ww calls)) =
     wrap_int (size_w ww + sum_list (written_counts (fst (run_wrapped W WH ww calls))))"
proof (induction calls arbitrary: ww)
  case Nil
  then show ?case by simp
next
  case (Cons c calls)
  show ?case
  proof (cases c)
    case (CallWrite p)
    let ?ww = "snd (LogResponseWriter_Write W ww p)"
    let ?n = "fst (fst (W (ResponseWriter ww) p))"
    have sz: "size_w ?ww = wrap_int (size_w ww + ?n)"
      by (simp add: LogResponseWriter_Write_def split_beta)
    then have "wrap_int (size_w ?ww) = size_w ?ww"
      using wrap_int_add [of "size_w ww + ?n" 0] by simp
    then have "size_w (snd (run_wrapped W WH ?ww calls)) =
        wrap_int (size_w ?ww + sum_list (written_counts (fst (run_wrapped W WH ?ww calls))))"
      by (rule Cons.IH)
    also have "\<dots> = wrap_int (size_w ww + ?n + sum_list (written_counts (fst (run_wrapped W WH ?ww calls))))"
      unfolding sz by (rule wrap_int_add)
    finally show ?thesis
      using CallWrite
      by (simp add: split_beta LogResponseWriter_Write_def add.assoc written_counts_Some)
  next
    case (CallWriteHeader code)
    then show ?thesis
      using Cons.IH [of "LogResponseWriter_WriteHeader WH ww code"] Cons.prems
      by (simp add: LogResponseWriter_WriteHeader_def split_beta Let_def)
  qed
qed

text \<open>
  Claim C7. For every sequence of \<^verbatim>\<open>Write\<close> and \<^verbatim>\<open>WriteHeader\<close> calls on a new
  \<open>LogResponseWriter\<close> around any sink: every \<^verbatim>\<open>Write\<close> returns the pair the sink returns,
  and the sink ends as it does under the same calls made directly; \<open>Status\<close> is the
  argument of the last \<^verbatim>\<open>WriteHeader\<close>, 0 when there was none; \<open>Size\<close> is the sum of the
  byte counts the sink returned, as Go's \<^verbatim>\<open>int\<close> adds them, which is the sum itself as long
  as it fits 64 bits.
\<close>

theorem LogResponseWriter_records:
  "fst (LogResponseWriter_Write W ww p) = fst (W (ResponseWriter ww) p)
   \<and> fst (run_wrapped W WH (NewLogResponseWriter s) calls) = fst (run_sink W WH s calls)
   \<and> ResponseWriter (snd (run_wrapped W WH (NewLogResponseWriter s) calls)) = snd (run_sink W WH s calls)
   \<and> Status (snd (run_wrapped W WH (NewLogResponseWriter s) calls)) = last_WriteHeader 0 calls
   \<and> Size (snd (run_wrapped W WH (NewLogResponseWriter s) calls)) =
       wrap_int (sum_list (written_counts (fst (run_sink W WH s calls))))
   \<and> (- (2 ^ 63) \<le> sum_list (written_counts (fst (run_sink W WH s calls))) \<and>
       sum_list (written_counts (fst (run_sink W WH s calls))) < 2 ^ 63 \<longrightarrow>
       Size (snd (run_wrapped W WH (NewLogResponseWriter s) calls)) =
         sum_list (written_counts (fst (run_sink W WH s calls))))"
proof -
  let ?ww = "NewLogResponseWriter s"
  have rets: "fst (run_wrapped W WH ?ww calls) = fst (run_sink W WH s calls)"
    and sink: "ResponseWriter (snd (run_wrapped W WH ?ww calls)) = snd (run_sink W WH s calls)"
    using run_wrapped_returns [of W WH ?ww calls] by (simp_all add: NewLogResponseWriter_def)
  have st: "Status (snd (run_wrapped W WH ?ww calls)) = last_WriteHeader 0 calls"
    using run_wrapped_status [of W WH ?ww calls] by (simp add: Status_def NewLogResponseWriter_def)
  have "wrap_int (size_w ?ww) = size_w ?ww"
    by (simp add: NewLogResponseWriter_def wrap_int_def)
  then have sz: "Size (snd (run_wrapped W WH ?ww calls)) =
      wrap_int (sum_list (written_counts (fst (run_sink W WH s calls))))"
    using run_wrapped_size [of ?ww W WH calls] rets
    by (simp add: Size_def NewLogResponseWriter_def)
  have one: "fst (LogResponseWriter_Write W ww p) = fst (W (ResponseWriter ww) p)"
    by (simp add: LogResponseWriter_Write_def split_beta)
  show ?thesis
    using one rets sink st sz by (simp add: wrap_int_in_range)
qed

theorem LogResponseWriter_records_witness:
  "run_wrapped short_Write short_WriteHeader (NewLogResponseWriter '''')
      [CallWrite ''ab'', CallWriteHeader 201, CallWrite ''cdefghi'', CallWriteHeader 404] =
     ([Some (2, None), None, Some (4, Some ''short write''), None],
      \<lparr>ResponseWriter = ''abcdef'', status = 404, size_w = 6\<rparr>)
   \<and> Status (snd (run_wrapped short_Write short_WriteHeader (NewLogResponseWriter '''')
      [CallWrite ''ab'', CallWriteHeader 201, CallWrite ''cdefghi'', CallWriteHeader 404])) = 404
   \<and> Size (snd (run_wrapped short_Write short_WriteHeader (NewLogResponseWriter '''')
      [CallWrite ''ab'', CallWriteHeader 201, CallWrite ''cdefghi'', CallWriteHeader 404])) = 6"
  using LogResponseWriter_records [of short_Write "NewLogResponseWriter ''''" "''ab''" short_WriteHeader "''''"
      "[CallWrite ''ab'', CallWriteHeader 201, CallWrite ''cdefghi'', CallWriteHeader 404]"]
  by (simp add: short_Write_def short_WriteHeader_def NewLogResponseWriter_def
      LogResponseWriter_Write_def LogResponseWriter_WriteHeader_def wrap_int_def Status_def Size_def)

section \<open>Properties of the route registry and the dispatch wrappers\<close>

lemma router_Handle_Inr:
  "router_Handle rt method path h = Inr rt' \<Longrightarrow>
     handles rt' = handles rt @ [((method, path), h)]"
  by (auto simp: router_Handle_def split: if_splits)

lemma router_Handle_distinct:
  "router_Handle rt method path h = Inr rt' \<Longrightarrow> distinct (map fst (handles rt)) \<Longrightarrow>
     distinct (map fst (handles rt'))"
  by (auto simp: router_Handle_def split: if_splits)

lemma handle_mappings_Inr:
  "handle_mappings (rt, l) method mappings = Inr (rt', l') \<Longrightarrow>
     handles rt' = handles rt @
       map (\<lambda>m. ((method, fst m), RouteHandle method (fst m) (snd m))) mappings"
proof (induction mappings arbitrary: rt l)
  case Nil
  then show ?case by simp
next
  case (Cons m mappings)
  obtain route endpoint where m: "m = (route, endpoint)" by (cases m)
  from Cons.prems m obtain rt1 where
    h: "router_Handle rt method route (RouteHandle method route endpoint) = Inr rt1"
    by (auto split: sum.splits)
  with Cons.prems m obtain l1 where rest: "handle_mappings (rt1, l1) method mappings = Inr (rt', l')"
    by auto
  show ?case using router_Handle_Inr [OF h] Cons.IH [OF rest] m by simp
qed

lemma handle_mappings_distinct:
  "handle_mappings (rt, l) method mappings = Inr (rt', l') \<Longrightarrow>
     distinct (map fst (handles rt)) \<Longrightarrow> distinct (map fst (handles rt'))"
proof (induction mappings arbitrary: rt l)
  case Nil
  then show ?case by simp
next
  case (Cons m mappings)
  obtain route endpoint where m: "m = (route, endpoint)" by (cases m)
  from Cons.prems m obtain rt1 where
    h: "router_Handle rt method route (RouteHandle method route endpoint) = Inr rt1"
    by (auto split: sum.splits)
  with Cons.prems m obtain l1 where rest: "handle_mappings (rt1, l1) method mappings = Inr (rt', l')"
    by auto
  have "distinct (map fst (handles rt1))"
    using h Cons.prems(2) by (rule router_Handle_distinct)
  with rest show ?case by (rule Cons.IH)
qed

lemma handle_routes_Inr:
  "handle_routes (rt, l) routes = Inr (rt', l') \<Longrightarrow>
     handles rt' = handles rt @ route_handles routes"
proof (induction routes arbitrary: rt l)
  case Nil
  then show ?case by (simp add: route_handles_def)
next
  case (Cons entry routes)
  obtain meth mappings where e: "entry = (meth, mappings)" by (cases entry)
  from Cons.prems e obtain rt1 l1 where
    h: "handle_mappings (rt, l) meth mappings = Inr (rt1, l1)"
    and rest: "handle_routes (rt1, l1) routes = Inr (rt', l')"
    by (auto split: sum.splits)
  show ?case
    using handle_mappings_Inr [OF h] Cons.IH [OF rest] e by (simp add: route_handles_def)
qed

lemma handle_routes_distinct:
  "handle_routes (rt, l) routes = Inr (rt', l') \<Longrightarrow>
     distinct (map fst (handles rt)) \<Longrightarrow> distinct (map fst (handles rt'))"
proof (induction routes arbitrary: rt l)
  case Nil
  then show ?case by simp
next
  case (Cons entry routes)
  obtain meth mappings where e: "entry = (meth, mappings)" by (cases entry)
  from Cons.prems e obtain rt1 l1 where
    h: "handle_mappings (rt, l) meth mappings = Inr (rt1, l1)"
    and rest: "handle_routes (rt1, l1) routes = Inr (rt', l')"
    by (auto split: sum.splits)
  have "distinct (map fst (handles rt1))"
    using h Cons.prems(2) by (rule handle_mappings_distinct)
  with rest show ?case by (rule Cons.IH)
qed

lemma handle_options_Inr:
  "handle_options (rt, l) rs = Inr (rt', l') \<Longrightarrow>
     handles rt' = handles rt @ option_handles rs"
proof (induction rs arbitrary: rt l)
  case Nil
  then show ?case by (simp add: option_handles_def)
next
  case (Cons route rs)
  from Cons.prems obtain rt1 where
    h: "router_Handle rt ''OPTIONS'' route (OptionsHandle route) = Inr rt1"
    by (auto split: sum.splits)
  with Cons.prems obtain l1 where rest: "handle_options (rt1, l1) rs = Inr (rt', l')"
    by auto
  show ?case
    using router_Handle_Inr [OF h] Cons.IH [OF rest] by (simp add: option_handles_def)
qed

lemma handle_options_distinct:
  "handle_options (rt, l) rs = Inr (rt', l') \<Longrightarrow>
     distinct (map fst (handles rt)) \<Longrightarrow> distinct (map fst (handles rt'))"
proof (induction rs arbitrary: rt l)
  case Nil
  then show ?case by simp
next
  case (Cons route rs)
  from Cons.prems obtain rt1 where
    h: "router_Handle rt ''OPTIONS'' route (OptionsHandle route) = Inr rt1"
    by (auto split: sum.splits)
  with Cons.prems obtain l1 where rest: "handle_options (rt1, l1) rs = Inr (rt', l')"
    by auto
  have "distinct (map fst (handles rt1))"
    using h Cons.prems(2) by (rule router_Handle_distinct)
  with rest show ?case by (rule Cons.IH)
qed

lemma SetupRouter_Inr:
  assumes "SetupRouter rr0 routes = Inr rr"
  shows "optionsMappings rr = options_of_routes [] routes"
    and "handles (router rr) =
           route_handles routes @ option_handles (map fst (options_of_routes [] routes))"
    and "distinct (map fst (handles (router rr)))"
proof -
  let ?om = "options_of_routes [] routes"
  from assms obtain rt1 l1 where
    h1: "handle_routes (httprouter_New, logger rr0) routes = Inr (rt1, l1)"
    by (auto simp: SetupRouter_def Let_def split: sum.splits)
  with assms obtain rt2 l2 where
    h2: "handle_options (rt1, l1) (map fst ?om) = Inr (rt2, l2)"
    by (auto simp: SetupRouter_def Let_def split: sum.splits)
  from assms h1 h2 have rr: "rr = rr0\<lparr>router := rt2\<lparr>router_NotFound := Some NotFoundLogged,
        router_MethodNotAllowed := Some MethodNotAllowedLogged\<rparr>, optionsMappings := ?om, logger := l2\<rparr>"
    by (auto simp: SetupRouter_def Let_def)
  have d0: "distinct (map fst (handles httprouter_New))" by (simp add: httprouter_New_def)
  have d1: "distinct (map fst (handles rt1))"
    using h1 d0 by (rule handle_routes_distinct)
  have d2: "distinct (map fst (handles rt2))"
    using h2 d1 by (rule handle_options_distinct)
  show "optionsMappings rr = ?om" using rr by simp
  show "handles (router rr) = route_handles routes @ option_handles (map fst ?om)"
    using rr handle_routes_Inr [OF h1] handle_options_Inr [OF h2] by (simp add: httprouter_New_def)
  show "distinct (map fst (handles (router rr)))"
    using rr d2 by simp
qed

lemma map_of_update_at: "map_of (update_at om k v) = (map_of om)(k \<mapsto> v)"
  by (induction om k v rule: update_at.induct) auto

lemma keys_update_at: "fst ` set (update_at om k v) = insert k (fst ` set om)"
  by (induction om k v rule: update_at.induct) auto

lemma options_of_mappings_at:
  "optionsMappings_at (options_of_mappings om method mappings) route =
     optionsMappings_at om route @ map (\<lambda>m. method) (filter (\<lambda>m. fst m = route) mappings)"
proof (induction mappings arbitrary: om)
  case Nil
  show ?case by simp
next
  case (Cons m mappings)
  obtain r e where m: "m = (r, e)" by (cases m)
  show ?case
    unfolding m
    by (simp add: Cons.IH) (simp add: optionsMappings_at_def map_of_update_at split: option.splits)
qed

lemma options_of_mappings_keys:
  "fst ` set (options_of_mappings om method mappings) = fst ` set om \<union> fst ` set mappings"
proof (induction mappings arbitrary: om)
  case Nil
  show ?case by simp
next
  case (Cons m mappings)
  obtain r e where m: "m = (r, e)" by (cases m)
  show ?case
    unfolding m
    by (simp add: Cons.IH keys_update_at split: option.splits)
qed

lemma options_of_routes_at:
  "optionsMappings_at (options_of_routes om routes) route =
     optionsMappings_at om route @
     concat (map (\<lambda>entry. map (\<lambda>m. fst entry) (filter (\<lambda>m. fst m = route) (snd entry))) routes)"
proof (induction routes arbitrary: om)
  case Nil
  show ?case by simp
next
  case (Cons entry routes)
  obtain meth mappings where e: "entry = (meth, mappings)" by (cases entry)
  show ?case
    unfolding e by (simp add: Cons.IH options_of_mappings_at)
qed

lemma options_of_routes_keys:
  "fst ` set (options_of_routes om routes) =
     fst ` set om \<union> (\<Union>entry\<in>set routes. fst ` set (snd entry))"
proof (induction routes arbitrary: om)
  case Nil
  show ?case by simp
next
  case (Cons entry routes)
  obtain meth mappings where e: "entry = (meth, mappings)" by (cases entry)
  show ?case
    unfolding e by (simp add: Cons.IH options_of_mappings_keys Un_assoc)
qed

lemma route_handles_keys:
  "(method, route) \<in> fst ` set (route_handles routes) \<longleftrightarrow>
     (\<exists>mappings. (method, mappings) \<in> set routes \<and> route \<in> fst ` set mappings)"
  by (force simp: route_handles_def)

lemma set_registered_methods:
  "set (registered_methods routes route) =
     {method. \<exists>mappings. (method, mappings) \<in> set routes \<and> route \<in> fst ` set mappings}"
  by (force simp: registered_methods_def)

lemma once_per_mapping:
  "distinct (map fst mappings) \<Longrightarrow>
     map (\<lambda>m. method) (filter (\<lambda>m. fst m = route) mappings) =
       (if route \<in> fst ` set mappings then [method] else [])"
  by (induction mappings) (auto simp: image_iff)

lemma registered_methods_Cons:
  "registered_methods ((method, mappings) # routes) route =
     (if route \<in> fst ` set mappings then method # registered_methods routes route
      else registered_methods routes route)"
  by (simp add: registered_methods_def)

lemma route_handles_Cons:
  "map fst (route_handles ((method, mappings) # routes)) =
     map (Pair method) (map fst mappings) @ map fst (route_handles routes)"
  by (simp add: route_handles_def comp_def)

lemma registered_once:
  "distinct (map fst (route_handles routes)) \<Longrightarrow>
     concat (map (\<lambda>entry. map (\<lambda>m. fst entry) (filter (\<lambda>m. fst m = route) (snd entry))) routes) =
       registered_methods routes route
     \<and> distinct (registered_methods routes route)"
proof (induction routes)
  case Nil
  show ?case by (simp add: registered_methods_def)
next
  case (Cons entry routes)
  obtain meth mappings where e: "entry = (meth, mappings)" by (cases entry)
  from Cons.prems
  have "distinct (map (Pair meth) (map fst mappings) @ map fst (route_handles routes))"
    unfolding e route_handles_Cons .
  then have parts: "distinct (map (Pair meth) (map fst mappings)) \<and>
      distinct (map fst (route_handles routes)) \<and>
      set (map (Pair meth) (map fst mappings)) \<inter> set (map fst (route_handles routes)) = {}"
    unfolding distinct_append .
  have d: "distinct (map (Pair meth) (map fst mappings))"
    using parts by (rule conjunct1)
  have dr: "distinct (map fst (route_handles routes))"
    using parts by (rule conjunct2 [THEN conjunct1])
  have disj: "set (map (Pair meth) (map fst mappings)) \<inter> set (map fst (route_handles routes)) = {}"
    using parts by (rule conjunct2 [THEN conjunct2])
  from d have dm: "distinct (map fst mappings)"
    using distinct_map [of "Pair meth" "map fst mappings"] by blast
  note IH = Cons.IH [OF dr]
  have fresh: "meth \<notin> set (registered_methods routes route)" if "route \<in> fst ` set mappings"
  proof
    assume "meth \<in> set (registered_methods routes route)"
    then have "(meth, route) \<in> fst ` set (route_handles routes)"
      by (simp add: set_registered_methods route_handles_keys)
    moreover from that have "(meth, route) \<in> set (map (Pair meth) (map fst mappings))"
      by auto
    ultimately show False using disj by auto
  qed
  show ?case
    unfolding e using IH fresh
    by (simp add: once_per_mapping [OF dm] registered_methods_Cons)
qed

lemma Join_OPTIONS:
  "ms \<noteq> [] \<Longrightarrow> ''OPTIONS, '' @ Join ms '', '' = Join (''OPTIONS'' # ms) '', ''"
  by (cases ms) simp_all

lemma SetupRouter_options:
  assumes ok: "SetupRouter rr0 routes = Inr rr"
    and reg: "(method, mappings) \<in> set routes" "(route, endpoint) \<in> set mappings"
  shows "map_of (handles (router rr)) (''OPTIONS'', route) = Some (OptionsHandle route)"
    and "optionsMappings_at (optionsMappings rr) route = registered_methods routes route"
    and "distinct (''OPTIONS'' # registered_methods routes route)"
    and "registered_methods routes route \<noteq> []"
proof -
  let ?om = "options_of_routes [] routes"
  note om = SetupRouter_Inr(1) [OF ok] and hs = SetupRouter_Inr(2) [OF ok]
    and dist = SetupRouter_Inr(3) [OF ok]
  from reg have "route \<in> fst ` set ?om"
    unfolding options_of_routes_keys by force
  then have key: "route \<in> set (map fst ?om)" by simp
  then have "((''OPTIONS'', route), OptionsHandle route) \<in> set (handles (router rr))"
    unfolding hs by (auto simp: option_handles_def)
  with dist show "map_of (handles (router rr)) (''OPTIONS'', route) = Some (OptionsHandle route)"
    by (rule map_of_is_SomeI)
  from dist have dr: "distinct (map fst (route_handles routes))"
    and disj: "set (map fst (route_handles routes)) \<inter>
        set (map fst (option_handles (map fst ?om))) = {}"
    unfolding hs by simp_all
  note once = registered_once [OF dr, of route]
  show "optionsMappings_at (optionsMappings rr) route = registered_methods routes route"
    unfolding om options_of_routes_at using once by (simp add: optionsMappings_at_def)
  from key have "(''OPTIONS'', route) \<in> set (map fst (option_handles (map fst ?om)))"
    by (auto simp: option_handles_def image_iff)
  with disj have "(''OPTIONS'', route) \<notin> fst ` set (route_handles routes)"
    by auto
  then have "''OPTIONS'' \<notin> set (registered_methods routes route)"
    by (simp add: set_registered_methods route_handles_keys)
  with once show "distinct (''OPTIONS'' # registered_methods routes route)"
    by simp
  from reg have "method \<in> set (registered_methods routes route)"
    unfolding set_registered_methods by force
  then show "registered_methods routes route \<noteq> []" by auto
qed

lemma SetupRouter_route:
  assumes ok: "SetupRouter rr0 routes = Inr rr"
    and reg: "(method, mappings) \<in> set routes" "(route, endpoint) \<in> set mappings"
  shows "map_of (handles (router rr)) (method, route) = Some (RouteHandle method route endpoint)"
proof -
  from reg have "((method, route), RouteHandle method route endpoint) \<in> set (route_handles routes)"
    by (force simp: route_handles_def)
  then have "((method, route), RouteHandle method route endpoint) \<in> set (handles (router rr))"
    unfolding SetupRouter_Inr(2) [OF ok] by simp
  with SetupRouter_Inr(3) [OF ok] show ?thesis
    by (rule map_of_is_SomeI)
qed

lemma options_wrapper_fresh:
  "sent_status (fst (options_wrapper rr route elapsed new_response r ps)) = Some 200
   \<and> body (fst (options_wrapper rr route elapsed new_response r ps)) = []
   \<and> sent_header (fst (options_wrapper rr route elapsed new_response r ps))
        ''Access-Control-Allow-Methods'' =
      [''OPTIONS, '' @ Join (optionsMappings_at (optionsMappings rr) route) '', '']"
  by (simp add: options_wrapper_def Let_def NewLogResponseWriter_def writeHeaders_def
      LogResponseWriter_WriteHeader_def WriteHeader_def Header_Add_def new_response_def
      sent_status_def sent_header_def)

text \<open>
  Claim C6. After \<open>SetupRouter\<close> has returned, every path registered under some method has
  an OPTIONS handle in the table. Whatever \<open>tls\<close> and the log are at the time of the
  request, on a fresh sink that handle sends status 200 and no body, and its
  Access-Control-Allow-Methods header is the list \<^verbatim>\<open>OPTIONS\<close> followed by the methods
  registered for the path, joined by \<^verbatim>\<open>", "\<close>: each registered method once, no other
  method, and \<^verbatim>\<open>OPTIONS\<close> once. (A route map that registers \<^verbatim>\<open>OPTIONS\<close> itself makes
  \<open>SetupRouter\<close> panic, since the router refuses the second handle.)
\<close>

theorem OPTIONS_handle_allows_registered_methods:
  assumes "SetupRouter rr0 routes = Inr rr"
    and "(method, mappings) \<in> set routes" and "(route, endpoint) \<in> set mappings"
    and "optionsMappings rr' = optionsMappings rr"
  shows "\<exists>h w' rr''.
      map_of (handles (router rr)) (''OPTIONS'', route) = Some h
    \<and> serve M rr' h elapsed new_response r ps = Inr (w', rr'')
    \<and> sent_status w' = Some 200
    \<and> body w' = []
    \<and> sent_header w' ''Access-Control-Allow-Methods'' =
        [Join (''OPTIONS'' # registered_methods routes route) '', '']
    \<and> distinct (''OPTIONS'' # registered_methods routes route)
    \<and> set (registered_methods routes route) =
        {m. \<exists>mp. (m, mp) \<in> set routes \<and> route \<in> fst ` set mp}"
proof -
  note opt = SetupRouter_options [OF assms(1-3)]
  let ?out = "options_wrapper rr' route elapsed new_response r ps"
  have "serve M rr' (OptionsHandle route) elapsed new_response r ps = Inr (fst ?out, snd ?out)"
    by simp
  moreover have "sent_header (fst ?out) ''Access-Control-Allow-Methods'' =
      [''OPTIONS, '' @ Join (optionsMappings_at (optionsMappings rr') route) '', '']"
    using options_wrapper_fresh [of rr' route elapsed r ps] by (elim conjE)
  then have "sent_header (fst ?out) ''Access-Control-Allow-Methods'' =
      [Join (''OPTIONS'' # registered_methods routes route) '', '']"
    unfolding assms(4) opt(2) Join_OPTIONS [OF opt(4)] .
  ultimately show ?thesis
    using opt(1) opt(3) options_wrapper_fresh [of rr' route elapsed r ps]
      set_registered_methods [of routes route]
    by blast
qed

theorem OPTIONS_handle_allows_registered_methods_witness:
  "\<exists>rr h w' rr''.
      SetupRouter sample_REST sample_routes = Inr rr
    \<and> map_of (handles (router rr)) (''OPTIONS'', ''/items/:id'') = Some h
    \<and> serve sample_MatchString (rr\<lparr>tls := True\<rparr>) h 7 new_response
         (sample_request ''OPTIONS'' ''/items/42'') [] = Inr (w', rr'')
    \<and> sent_status w' = Some 200
    \<and> body w' = []
    \<and> sent_header w' ''Access-Control-Allow-Methods'' = [''OPTIONS, GET, PUT'']"
proof -
  obtain rr where ok: "SetupRouter sample_REST sample_routes = Inr rr"
    by (simp add: SetupRouter_def sample_REST_def sample_routes_def httprouter_New_def
        router_Handle_def Let_def optionsMappings_at_def)
  have a: "(''GET'', [(''/items/:id'', sample_endpoint ['''', ''^[0-9]+$'']),
      (''/items'', sample_endpoint [])]) \<in> set sample_routes"
    by (simp add: sample_routes_def)
  have b: "(''/items/:id'', sample_endpoint ['''', ''^[0-9]+$'']) \<in>
      set [(''/items/:id'', sample_endpoint ['''', ''^[0-9]+$'']), (''/items'', sample_endpoint [])]"
    by simp
  have c: "optionsMappings (rr\<lparr>tls := True\<rparr>) = optionsMappings rr" by simp
  have m: "registered_methods sample_routes ''/items/:id'' = [''GET'', ''PUT'']"
    by (simp add: registered_methods_def sample_routes_def)
  show ?thesis
    using OPTIONS_handle_allows_registered_methods [OF ok a b c, of sample_MatchString 7 "sample_request ''OPTIONS'' ''/items/42''" "[]"] ok
    unfolding m by auto
qed

text \<open>
  Claim C5. After \<open>SetupRouter\<close> has returned, the handle of every registered method, path
  and endpoint is the dispatch wrapper of that triple. When \<open>match\<close> returns false for the
  endpoint's matcher on a request, the wrapper sends status 400 (on a sink that has sent
  nothing yet), writes the error envelope with the reason \<^verbatim>\<open>route does not match\<close>, and adds
  one record to the log: level error, code 400, size 0.
\<close>

theorem wrapper_rejects_unmatched_request:
  assumes "SetupRouter rr0 routes = Inr rr"
    and "(method, mappings) \<in> set routes" and "(route, endpoint) \<in> set mappings"
    and "match M route (Matcher endpoint) r = Inr False"
    and "wrote w = None"
  shows \<open>\<exists>h w' rr''.
      map_of (handles (router rr)) (method, route) = Some h
    \<and> serve M rr' h elapsed w r ps = Inr (w', rr'')
    \<and> sent_status w' = Some 400
    \<and> body w' = body w @
        ''{"code":400,"message":"Bad Request","reason":"route does not match"}'' @ [CHR 0x0A]
    \<and> logger rr'' = logger rr' @
        [\<lparr>entry_level = ErrorLevel, entry_msg = ''hit'',
          entry_fields =
            [(''method'', zap_String method),
             (''uri'', zap_String (RequestURI r)),
             (''remote'', zap_String (RemoteAddr r)),
             (''code'', zap_Int 400),
             (''size'', zap_Int 0),
             (''duration'', zap_Duration elapsed),
             (''source'', zap_String ''rest'')]\<rparr>]\<close>
proof -
  let ?w = "if tls rr'
      then Header_Add w ''Strict-Transport-Security'' ''max-age=31536000; includeSubDomains''
      else w"
  let ?w' = "BadRequest ?w r ''route does not match''"
  let ?rr'' = "REST_log rr' True ''hit'' method route (RequestURI r) (RemoteAddr r) 400 0 elapsed"
  have w: "wrote ?w = None" "body ?w = body w"
    using assms(5) by (simp_all add: Header_Add_def)
  have run: "serve M rr' (RouteHandle method route endpoint) elapsed w r ps = Inr (?w', ?rr'')"
    using assms(4) by (simp add: wrapper_def Let_def)
  have st: "sent_status ?w' = Some 400"
    using w(1) by (simp add: BadRequest_def sent_status_def wrote_ErrorResponse)
  have bd: \<open>body ?w' = body w @
      ''{"code":400,"message":"Bad Request","reason":"route does not match"}'' @ [CHR 0x0A]\<close>
    unfolding BadRequest_def body_ErrorResponse w(2)
    by (simp add: marshal_def StatusText_def quote_def escape_char_def Itoa_def decimal.simps)
  have lg: "logger ?rr'' = logger rr' @
        [\<lparr>entry_level = ErrorLevel, entry_msg = ''hit'',
          entry_fields =
            [(''method'', zap_String method),
             (''uri'', zap_String (RequestURI r)),
             (''remote'', zap_String (RemoteAddr r)),
             (''code'', zap_Int 400),
             (''size'', zap_Int 0),
             (''duration'', zap_Duration elapsed),
             (''source'', zap_String ''rest'')]\<rparr>]"
    by (simp add: REST_log_def Logging_Error_def)
  show ?thesis
    using SetupRouter_route [OF assms(1-3)] run st bd lg by blast
qed

theorem wrapper_rejects_unmatched_request_witness:
  \<open>\<exists>rr h w' rr''.
      SetupRouter sample_REST sample_routes = Inr rr
    \<and> match sample_MatchString ''/items/:id'' ['''', ''^[0-9]+$'']
         (sample_request ''GET'' ''/items/abc'') = Inr False
    \<and> map_of (handles (router rr)) (''GET'', ''/items/:id'') = Some h
    \<and> serve sample_MatchString rr h 7 new_response (sample_request ''GET'' ''/items/abc'') [] =
         Inr (w', rr'')
    \<and> sent_status w' = Some 400
    \<and> body w' = ''{"code":400,"message":"Bad Request","reason":"route does not match"}'' @ [CHR 0x0A]
    \<and> last (logger rr'') =
        \<lparr>entry_level = ErrorLevel, entry_msg = ''hit'',
          entry_fields =
            [(''method'', zap_String ''GET''),
             (''uri'', zap_String ''/items/abc''),
             (''remote'', zap_String ''10.0.0.1:4000''),
             (''code'', zap_Int 400),
             (''size'', zap_Int 0),
             (''duration'', zap_Duration 7),
             (''source'', zap_String ''rest'')]\<rparr>\<close>
proof -
  obtain rr where ok: "SetupRouter sample_REST sample_routes = Inr rr"
    by (simp add: SetupRouter_def sample_REST_def sample_routes_def httprouter_New_def
        router_Handle_def Let_def optionsMappings_at_def)
  have a: "(''GET'', [(''/items/:id'', sample_endpoint ['''', ''^[0-9]+$'']),
      (''/items'', sample_endpoint [])]) \<in> set sample_routes"
    by (simp add: sample_routes_def)
  have b: "(''/items/:id'', sample_endpoint ['''', ''^[0-9]+$'']) \<in>
      set [(''/items/:id'', sample_endpoint ['''', ''^[0-9]+$'']), (''/items'', sample_endpoint [])]"
    by simp
  have c: "match sample_MatchString ''/items/:id'' (Matcher (sample_endpoint ['''', ''^[0-9]+$'']))
      (sample_request ''GET'' ''/items/abc'') = Inr False"
    by (simp add: match_def sample_endpoint_def sample_request_def sample_MatchString_def)
  have d: "wrote new_response = None" by (simp add: new_response_def)
  show ?thesis
    using wrapper_rejects_unmatched_request [OF ok a b c d, of rr 7 "[]"] ok c
    by (auto simp: sample_request_def new_response_def sample_endpoint_def)
qed

end
